theory Spec2Isabelle
  imports Main
begin

section \<open>Go strings: bytes, runes and UTF-8\<close>

text \<open>
  A Go string is a sequence of bytes; it is modelled as \<open>string\<close> (a list of 8-bit
  characters). A slice is modelled as a list: the code never compares a slice with nil,
  only its length and its elements are read. A rune is a code point, a natural number
  (every rune below comes out of a decoding, so none is negative).
\<close>

type_synonym rune = nat

definition RuneError :: rune where
  "RuneError = 0xFFFD"

definition locb_hicb :: "nat \<Rightarrow> bool" where
  "locb_hicb b = (0x80 \<le> b \<and> b \<le> 0xBF)"

text \<open>
  \<open>decoderune\<close> of the Go runtime, which the conversion \<open>[]rune(s)\<close> and the
  \<open>range\<close> loop over a string use: the rune at the front of a non-empty string and
  its width in bytes. An ill-formed or truncated sequence decodes to U+FFFD with width
  1. (\<open>utf8.DecodeRuneInString\<close>, which the regexp package steps with, returns the
  same pairs.) The masks and shifts of the source are written as \<open>mod\<close> and
  multiplication.
\<close>

fun decoderune :: "string \<Rightarrow> rune \<times> nat" where
  "decoderune [] = (RuneError, 1)"
| "decoderune (c0 # s) =
     (let b0 = (of_char c0 :: nat); bs = (map of_char s :: nat list) in
      if b0 < 0x80 then (b0, 1)
      else if 0xC0 \<le> b0 \<and> b0 < 0xE0 then
        (if 1 \<le> length bs \<and> locb_hicb (bs ! 0) then
           (let r = (b0 mod 32) * 64 + (bs ! 0) mod 64 in
            if 0x7F < r then (r, 2) else (RuneError, 1))
         else (RuneError, 1))
      else if 0xE0 \<le> b0 \<and> b0 < 0xF0 then
        (if 2 \<le> length bs \<and> locb_hicb (bs ! 0) \<and> locb_hicb (bs ! 1) then
           (let r = (b0 mod 16) * 4096 + ((bs ! 0) mod 64) * 64 + (bs ! 1) mod 64 in
            if 0x7FF < r \<and> \<not> (0xD800 \<le> r \<and> r \<le> 0xDFFF) then (r, 3) else (RuneError, 1))
         else (RuneError, 1))
      else if 0xF0 \<le> b0 \<and> b0 < 0xF8 then
        (if 3 \<le> length bs \<and> locb_hicb (bs ! 0) \<and> locb_hicb (bs ! 1) \<and> locb_hicb (bs ! 2) then
           (let r = (b0 mod 8) * 262144 + ((bs ! 0) mod 64) * 4096 + ((bs ! 1) mod 64) * 64
                    + (bs ! 2) mod 64 in
            if 0xFFFF < r \<and> r \<le> 0x10FFFF then (r, 4) else (RuneError, 1))
         else (RuneError, 1))
      else (RuneError, 1))"

text \<open>The runes of a string with their widths, front to back.\<close>

fun decode :: "string \<Rightarrow> (rune \<times> nat) list" where
  "decode [] = []"
| "decode (c # s) = (let (r, w) = decoderune (c # s) in (r, w) # decode (drop (w - 1) s))"

text \<open>The conversion \<open>[]rune(s)\<close>.\<close>

definition runes :: "string \<Rightarrow> rune list" where
  "runes s = map fst (decode s)"

text \<open>
  \<open>encoderune\<close> of the Go runtime (and \<open>utf8.AppendRune\<close>, behind
  \<open>strings.Builder.WriteRune\<close>): the UTF-8 bytes of a rune; a surrogate or a value
  above U+10FFFF is written as U+FFFD.
\<close>

definition encoderune :: "rune \<Rightarrow> string" where
  "encoderune r =
     (if r \<le> 0x7F then [char_of r]
      else if r \<le> 0x7FF then [char_of (0xC0 + r div 64), char_of (0x80 + r mod 64)]
      else if r > 0x10FFFF \<or> (0xD800 \<le> r \<and> r \<le> 0xDFFF) then
        [char_of (0xEF :: nat), char_of (0xBF :: nat), char_of (0xBD :: nat)]
      else if r \<le> 0xFFFF then
        [char_of (0xE0 + r div 4096), char_of (0x80 + (r div 64) mod 64),
         char_of (0x80 + r mod 64)]
      else
        [char_of (0xF0 + r div 262144), char_of (0x80 + (r div 4096) mod 64),
         char_of (0x80 + (r div 64) mod 64), char_of (0x80 + r mod 64)])"

text \<open>The conversion \<open>string(rs)\<close> of a rune slice.\<close>

definition string_of_runes :: "rune list \<Rightarrow> string" where
  "string_of_runes rs = concat (map encoderune rs)"

text \<open>
  A string is well-formed UTF-8 when decoding and encoding it again gives the same
  bytes: an ill-formed byte decodes to U+FFFD, whose encoding is three bytes long.
\<close>

definition well_formed_utf8 :: "string \<Rightarrow> bool" where
  "well_formed_utf8 s = (string_of_runes (runes s) = s)"

text \<open>
  A failure of a call: an error value returned next to the result, or a run-time panic
  (no caller in the repository recovers from one, so both abort the calling loop).
\<close>

datatype error = Error string | Panic string

text \<open>
  The slice expression \<open>xs[:hi]\<close>. It panics when \<open>hi\<close> is negative or beyond the
  capacity; the model takes the length for the capacity (the one use below has
  \<open>hi\<close> below the length whenever it is not negative).
\<close>

definition slice_to :: "'a list \<Rightarrow> int \<Rightarrow> error + 'a list" where
  "slice_to xs hi =
     (if hi < 0 \<or> int (length xs) < hi then Inl (Panic ''runtime error: slice bounds out of range'')
      else Inr (take (nat hi) xs))"

subsection \<open>Package strings\<close>

definition HasPrefix :: "string \<Rightarrow> string \<Rightarrow> bool" where
  "HasPrefix s pre = (length pre \<le> length s \<and> take (length pre) s = pre)"

fun Contains :: "string \<Rightarrow> string \<Rightarrow> bool" where
  "Contains [] substr = (substr = [])"
| "Contains (c # s) substr = (HasPrefix (c # s) substr \<or> Contains s substr)"

fun Join :: "string list \<Rightarrow> string \<Rightarrow> string" where
  "Join [] sep = []"
| "Join [x] sep = x"
| "Join (x # y # xs) sep = x @ sep @ Join (y # xs) sep"

text \<open>
  Isabelle's string syntax has no backslash. The regular expressions of the source are
  raw string literals full of them, so they are written here with a percent sign (which
  none of them contains) in the place of each backslash, and \<open>raw\<close> puts the
  backslashes back.
\<close>

definition raw :: "string \<Rightarrow> string" where
  "raw s = map (\<lambda>c. if c = CHR ''%'' then CHR 0x5C else c) s"

section \<open>Package regexp: leftmost-first matching\<close>

text \<open>
  The standard library's regexp package is not part of the repository. Its matching is
  modelled on syntax trees: a compiled \<open>Regexp\<close> is its source text (what
  \<open>String()\<close> returns) together with the tree of the expression. Parsing a source
  text into a tree is left to the library (the parameter \<open>regexp_parse\<close> below); the
  expressions that the repository compiles with \<open>MustCompile\<close> are given as trees
  next to their source text. A character class is a list of rune ranges.
\<close>

datatype rx =
    EmptyMatch
  | CharClass "(rune \<times> rune) list"
  | NotCharClass "(rune \<times> rune) list"
  | BeginText
  | EndText
  | Concat rx rx
  | Alternate rx rx
  | Star rx

definition Plus :: "rx \<Rightarrow> rx" where
  "Plus a = Concat a (Star a)"

definition Quest :: "rx \<Rightarrow> rx" where
  "Quest a = Alternate a EmptyMatch"

definition in_class :: "rune \<Rightarrow> (rune \<times> rune) list \<Rightarrow> bool" where
  "in_class r rs = list_ex (\<lambda>(lo, hi). lo \<le> r \<and> r \<le> hi) rs"

text \<open>The text being matched: its runes with their widths in bytes.\<close>

type_synonym input = "(rune \<times> nat) list"

text \<open>
  \<open>pm n r s\<close>: the ways in which \<open>r\<close> matches a prefix of the rest \<open>s\<close> of a
  text of \<open>n\<close> runes, each given by what is left of \<open>s\<close> after the match, in the
  order in which a backtracking matcher finds them (the package's leftmost-first rule:
  the left alternative before the right one, one more iteration of a star before none).
  An iteration of a star that consumes nothing ends the star.
\<close>

function pm :: "nat \<Rightarrow> rx \<Rightarrow> input \<Rightarrow> input list" where
  "pm n EmptyMatch s = [s]"
| "pm n (CharClass rs) s =
     (case s of [] \<Rightarrow> [] | (r, w) # s' \<Rightarrow> if in_class r rs then [s'] else [])"
| "pm n (NotCharClass rs) s =
     (case s of [] \<Rightarrow> [] | (r, w) # s' \<Rightarrow> if in_class r rs then [] else [s'])"
| "pm n BeginText s = (if length s = n then [s] else [])"
| "pm n EndText s = (if s = [] then [s] else [])"
| "pm n (Concat a b) s = concat (map (pm n b) (pm n a s))"
| "pm n (Alternate a b) s = pm n a s @ pm n b s"
| "pm n (Star a) s =
     concat (map (\<lambda>s'. if length s' < length s then pm n (Star a) s' else [s]) (pm n a s)) @ [s]"
  by pat_completeness auto
termination
  by (relation "measures [\<lambda>(n, r, s). size r, \<lambda>(n, r, s). length s]") auto

declare pm.simps(8) [simp del]

text \<open>
  The leftmost match at or after the current position: the rest of the text at the
  start of the match and the rest at its end.
\<close>

fun search :: "nat \<Rightarrow> rx \<Rightarrow> input \<Rightarrow> (input \<times> input) option" where
  "search n r [] = (case pm n r [] of [] \<Rightarrow> None | e # _ \<Rightarrow> Some ([], e))"
| "search n r (x # s) =
     (case pm n r (x # s) of [] \<Rightarrow> search n r s | e # _ \<Rightarrow> Some (x # s, e))"

lemma pm_suffix: "e \<in> set (pm n r s) \<Longrightarrow> \<exists>pre. s = pre @ e"
proof (induction n r s arbitrary: e rule: pm.induct)
  case (1 n s)
  then show ?case by simp
next
  case (2 n rs s)
  then show ?case by (cases s) (auto split: if_splits)
next
  case (3 n rs s)
  then show ?case by (cases s) (auto split: if_splits)
next
  case (4 n s)
  then show ?case by (simp split: if_splits)
next
  case (5 n s)
  then show ?case by (simp split: if_splits)
next
  case (6 n a b s)
  from 6(3) obtain m where m: "m \<in> set (pm n a s)" and e: "e \<in> set (pm n b m)" by auto
  from 6(1)[OF m] obtain p1 where "s = p1 @ m" by blast
  moreover from 6(2)[OF m e] obtain p2 where "m = p2 @ e" by blast
  ultimately show ?case by simp
next
  case (7 n a b s)
  from 7(3) have "e \<in> set (pm n a s) \<or> e \<in> set (pm n b s)" by simp
  with 7(1) 7(2) show ?case by blast
next
  case (8 n a s)
  from 8(3) have "e = s \<or> (\<exists>m \<in> set (pm n a s).
      e \<in> set (if length m < length s then pm n (Star a) m else [s]))"
    by (auto simp: pm.simps(8)[of n a s] split: if_splits)
  then show ?case
  proof
    assume "e = s"
    then show ?thesis by simp
  next
    assume "\<exists>m \<in> set (pm n a s). e \<in> set (if length m < length s then pm n (Star a) m else [s])"
    then obtain m where m: "m \<in> set (pm n a s)"
      and e: "e \<in> set (if length m < length s then pm n (Star a) m else [s])" by blast
    show ?thesis
    proof (cases "length m < length s")
      case True
      with e have e': "e \<in> set (pm n (Star a) m)" by simp
      from 8(1)[OF m] obtain p1 where "s = p1 @ m" by blast
      moreover from 8(2)[OF m True e'] obtain p2 where "m = p2 @ e" by blast
      ultimately show ?thesis by simp
    next
      case False
      with e show ?thesis by simp
    qed
  qed
qed

lemma search_Nil:
  "search n r [] = Some (st, e) \<Longrightarrow> st = [] \<and> e \<in> set (pm n r [])"
  by (cases "pm n r []") simp_all

lemma search_Cons:
  "search n r (x # s) = Some (st, e) \<Longrightarrow>
     (pm n r (x # s) = [] \<and> search n r s = Some (st, e)) \<or>
     (st = x # s \<and> e \<in> set (pm n r (x # s)))"
  by (cases "pm n r (x # s)") simp_all

lemma search_suffix:
  "search n r s = Some (st, e) \<Longrightarrow>
   (\<exists>p. s = p @ st) \<and> (\<exists>m. st = m @ e) \<and> e \<in> set (pm n r st)"
proof (induction s)
  case Nil
  from search_Nil[OF Nil] have st: "st = []" and mem: "e \<in> set (pm n r st)" by simp_all
  from pm_suffix[OF mem] st show ?case using mem by simp
next
  case (Cons x s)
  from search_Cons[OF Cons.prems] show ?case
  proof
    assume "pm n r (x # s) = [] \<and> search n r s = Some (st, e)"
    then have "search n r s = Some (st, e)" by simp
    from Cons.IH[OF this] obtain p where p: "s = p @ st"
      and rest: "(\<exists>m. st = m @ e) \<and> e \<in> set (pm n r st)"
      by blast
    from p have "x # s = (x # p) @ st" by simp
    then have "\<exists>p. x # s = p @ st" by (rule exI)
    with rest show ?thesis by simp
  next
    assume a: "st = x # s \<and> e \<in> set (pm n r (x # s))"
    then have mem: "e \<in> set (pm n r st)" by simp
    from pm_suffix[OF mem] have m: "\<exists>m. st = m @ e" .
    from a have "x # s = [] @ st" by simp
    then have "\<exists>p. x # s = p @ st" by (rule exI)
    with m mem show ?thesis by simp
  qed
qed

lemma search_length:
  "search n r s = Some (st, e) \<Longrightarrow> length e \<le> length st \<and> length st \<le> length s"
proof -
  assume "search n r s = Some (st, e)"
  from search_suffix[OF this] obtain p m where "s = p @ st" "st = m @ e" by blast
  then show ?thesis by simp
qed

text \<open>
  The loop of \<open>allMatches\<close> behind \<open>FindAllString(s, -1)\<close>: successive leftmost
  matches that do not overlap. \<open>s\<close> is the rest of the text at the position \<open>pos\<close>
  of the source and \<open>prev\<close> the position where the previous match ended (positions
  are identified by the length of the rest of the text). An empty match right after the
  previous match is not delivered, and the search moves on by one rune after an empty
  match.
\<close>

function find_all :: "nat \<Rightarrow> rx \<Rightarrow> input \<Rightarrow> nat option \<Rightarrow> (input \<times> input) list" where
  "find_all n r s prev =
     (case search n r s of
        None \<Rightarrow> []
      | Some (st, e) \<Rightarrow>
          if length e = length s then
            (if prev = Some (length st) then [] else [(st, e)])
            @ (case s of [] \<Rightarrow> [] | x # s' \<Rightarrow> find_all n r s' (Some (length e)))
          else (st, e) # find_all n r e (Some (length e)))"
  by pat_completeness auto
termination
proof (relation "measure (\<lambda>(n, r, s, prev). length s)")
  show "wf (measure (\<lambda>(n, r, s, prev). length s))" by simp
next
  fix n r s prev x2 x y x21 x22
  assume "search n r s = Some x2" "(x, y) = x2" "length y = length s" "s = x21 # x22"
  then show "((n, r, x22, Some (length y)), n, r, s, prev) \<in> measure (\<lambda>(n, r, s, prev). length s)"
    by simp
next
  fix n r s prev x2 x y
  assume "search n r s = Some x2" "(x, y) = x2" "length y \<noteq> length s"
  then show "((n, r, y, Some (length y)), n, r, s, prev) \<in> measure (\<lambda>(n, r, s, prev). length s)"
    using search_length[of n r s x y] by auto
qed

declare find_all.simps [simp del]

text \<open>
  Whether an expression can match the empty text.
\<close>

fun nullable :: "rx \<Rightarrow> bool" where
  "nullable EmptyMatch = True"
| "nullable (CharClass rs) = False"
| "nullable (NotCharClass rs) = False"
| "nullable BeginText = True"
| "nullable EndText = True"
| "nullable (Concat a b) = (nullable a \<and> nullable b)"
| "nullable (Alternate a b) = (nullable a \<or> nullable b)"
| "nullable (Star a) = True"

definition width :: "input \<Rightarrow> nat" where
  "width s = sum_list (map snd s)"

text \<open>
  The bytes of the text \<open>s\<close> between the start and the end of a match, each given
  by the rest of the decoded text there.
\<close>

definition match_text :: "string \<Rightarrow> input \<times> input \<Rightarrow> string" where
  "match_text s m = (case m of (st, e) \<Rightarrow> take (width st - width e) (drop (length s - width st) s))"

record Regexp =
  expr :: string
  prog :: rx

definition MatchString :: "Regexp \<Rightarrow> string \<Rightarrow> bool" where
  "MatchString re s = (let inp = decode s in search (length inp) (prog re) inp \<noteq> None)"

definition FindString :: "Regexp \<Rightarrow> string \<Rightarrow> string" where
  "FindString re s =
     (let inp = decode s in
      case search (length inp) (prog re) inp of
        None \<Rightarrow> []
      | Some m \<Rightarrow> match_text s m)"

definition FindAllString :: "Regexp \<Rightarrow> string \<Rightarrow> string list" where
  "FindAllString re s =
     (let inp = decode s in map (match_text s) (find_all (length inp) (prog re) inp None))"

subsection \<open>Writing the trees of the source's expressions\<close>

text \<open>
  A literal; a literal under the flag \<open>(?i)\<close>, where each letter also matches the
  other runes of its simple case folding (for k and s these include U+212A and U+017F);
  the class \<open>\s\<close>; the dot (any rune but a newline); sequences and alternations.
\<close>

definition fold_rune :: "rune \<Rightarrow> (rune \<times> rune) list" where
  "fold_rune c =
     (if 0x41 \<le> c \<and> c \<le> 0x5A then [(c, c), (c + 32, c + 32)]
      else if 0x61 \<le> c \<and> c \<le> 0x7A then [(c - 32, c - 32), (c, c)]
      else [(c, c)])
     @ (if c = 0x4B \<or> c = 0x6B then [(0x212A, 0x212A)] else [])
     @ (if c = 0x53 \<or> c = 0x73 then [(0x17F, 0x17F)] else [])"

fun seq :: "rx list \<Rightarrow> rx" where
  "seq [] = EmptyMatch"
| "seq [r] = r"
| "seq (r # rs) = Concat r (seq rs)"

fun alt :: "rx list \<Rightarrow> rx" where
  "alt [] = EmptyMatch"
| "alt [r] = r"
| "alt (r # rs) = Alternate r (alt rs)"

definition lit :: "string \<Rightarrow> rx" where
  "lit s = seq (map (\<lambda>c. CharClass [(of_char c, of_char c)]) s)"

definition lit_i :: "string \<Rightarrow> rx" where
  "lit_i s = seq (map (\<lambda>c. CharClass (fold_rune (of_char c))) s)"

definition ws :: rx where
  "ws = CharClass [(9, 10), (12, 13), (32, 32)]"

definition any_not_nl :: rx where
  "any_not_nl = NotCharClass [(10, 10)]"

section \<open>The library functions the code calls\<close>

text \<open>
  What the code uses of libraries outside the repository, taken as parameters:
  \<^item> \<open>NFKC\<close>: \<open>norm.NFKC.String\<close> of golang.org/x/text;
  \<^item> \<open>unicode_In\<close>: \<open>unicode.In(r, unicode.Cf, unicode.Co, unicode.Cc)\<close>;
  \<^item> \<open>regexp_parse\<close>: the parser of \<open>regexp.Compile\<close>, the tree of a source text or
    the text of the error;
  \<^item> \<open>Quote\<close>: the verb \<open>%q\<close> of package fmt on a string (\<open>strconv.Quote\<close>);
  \<^item> \<open>TrimSpace\<close>: \<open>strings.TrimSpace\<close>.
\<close>

record stdlib =
  NFKC :: "string \<Rightarrow> string"
  unicode_In :: "rune \<Rightarrow> bool"
  regexp_parse :: "string \<Rightarrow> string + rx"
  Quote :: "string \<Rightarrow> string"
  TrimSpace :: "string \<Rightarrow> string"

definition Compile :: "stdlib \<Rightarrow> string \<Rightarrow> string + Regexp" where
  "Compile lib p =
     (case regexp_parse lib p of
        Inl msg \<Rightarrow> Inl msg
      | Inr t \<Rightarrow> Inr \<lparr>expr = p, prog = t\<rparr>)"

section \<open>Scan results and the scanner interface (package sanitizer)\<close>

datatype Verdict = VerdictPass | VerdictModify | VerdictBlock

record ScanResult =
  Verdict :: Verdict
  Content :: string
  Threats :: "string list"
  ScannerName :: string

record PipelineResult =
  FinalVerdict :: Verdict
  FinalContent :: string
  AllThreats :: "string list"
  ScanResults :: "ScanResult list"

text \<open>
  The interface \<open>Scanner\<close>. An implementation may have effects of its own (the
  repository's test helper \<open>trackingScanner\<close> records that it ran), so \<open>Scan\<close>
  threads a state \<open>'s\<close> of the world outside the pipeline; the context argument of
  the Go method is part of that state.
\<close>

record 's Scanner =
  Name :: string
  Scan :: "'s \<Rightarrow> string \<Rightarrow> (error + ScanResult) \<times> 's"

record 's Pipeline =
  scanners :: "'s Scanner list"

definition NewPipeline :: "'s Scanner list \<Rightarrow> 's Pipeline" where
  "NewPipeline ss = \<lparr>scanners = ss\<rparr>"

text \<open>
  The loop of \<open>Pipeline.Process\<close>: \<open>current\<close> and \<open>result\<close> are the loop's two
  variables. The Go function returns the pair (result, err); the model returns the same
  pair, with \<open>None\<close> for a nil error.
\<close>

fun process_loop ::
  "'s Scanner list \<Rightarrow> 's \<Rightarrow> string \<Rightarrow> PipelineResult \<Rightarrow>
   (PipelineResult \<times> error option) \<times> 's" where
  "process_loop [] st current result = ((result\<lparr>FinalContent := current\<rparr>, None), st)"
| "process_loop (s # ss) st current result =
     (case Scan s st current of
        (Inl err, st') \<Rightarrow> ((result, Some err), st')
      | (Inr sr, st') \<Rightarrow>
          (let result1 = result\<lparr>ScanResults := ScanResults result @ [sr]\<rparr>;
               result2 = result1\<lparr>AllThreats := AllThreats result1 @ Threats sr\<rparr>
           in case Verdict sr of
                VerdictBlock \<Rightarrow>
                  ((result2\<lparr>FinalVerdict := VerdictBlock, FinalContent := Content sr\<rparr>, None), st')
              | VerdictModify \<Rightarrow>
                  process_loop ss st' (Content sr)
                    (if FinalVerdict result2 \<noteq> VerdictBlock
                     then result2\<lparr>FinalVerdict := VerdictModify\<rparr> else result2)
              | VerdictPass \<Rightarrow> process_loop ss st' current result2))"

definition Process ::
  "'s Pipeline \<Rightarrow> 's \<Rightarrow> string \<Rightarrow> (PipelineResult \<times> error option) \<times> 's" where
  "Process p st content =
     process_loop (scanners p) st content
       \<lparr>FinalVerdict = VerdictPass, FinalContent = [], AllThreats = [], ScanResults = []\<rparr>"

text \<open>
  What it means for the stages of a list to run one after the other without an error
  and without a block, in the words of the specification: each stage receives the
  content produced by the previous stage (a modify substitutes its content, a pass
  leaves the threaded content unchanged). The value is the stage results in order, the
  state reached and the content handed to the next stage; \<open>None\<close> when a stage fails
  or blocks.
\<close>

fun stages_run ::
  "'s Scanner list \<Rightarrow> 's \<Rightarrow> string \<Rightarrow> (ScanResult list \<times> 's \<times> string) option" where
  "stages_run [] st c = Some ([], st, c)"
| "stages_run (s # ss) st c =
     (case Scan s st c of
        (Inl err, st') \<Rightarrow> None
      | (Inr sr, st') \<Rightarrow>
          (if Verdict sr = VerdictBlock then None
           else (case stages_run ss st' (if Verdict sr = VerdictModify then Content sr else c) of
                   None \<Rightarrow> None
                 | Some (srs, st'', c') \<Rightarrow> Some (sr # srs, st'', c'))))"

text \<open>
  The two scanners of the repository's pipeline tests. \<open>stubScanner\<close> returns a
  preconfigured result (with the input as content when the configured content is
  empty) or a preconfigured error; \<open>trackingScanner\<close> records in the state, a
  boolean, that it ran.
\<close>

definition stubScanner :: "string \<Rightarrow> ScanResult \<Rightarrow> error option \<Rightarrow> 's Scanner" where
  "stubScanner name result err =
     \<lparr>Name = name,
      Scan = (\<lambda>st content.
        (case err of
           Some e \<Rightarrow> (Inl e, st)
         | None \<Rightarrow>
             (Inr (if Content result = [] then result\<lparr>Content := content\<rparr> else result), st)))\<rparr>"

definition trackingScanner :: "bool Scanner" where
  "trackingScanner =
     \<lparr>Name = ''tracking'',
      Scan = (\<lambda>ran content.
        (Inr \<lparr>Verdict = VerdictPass, Content = content, Threats = [], ScannerName = []\<rparr>, True))\<rparr>"

section \<open>The concrete scanners (package sanitizer)\<close>

text \<open>
  None of the six scanners reads its context argument or has an effect: each \<open>Scan\<close>
  is a function of the content, and \<open>as_Scanner\<close> makes it a value of the interface.
\<close>

definition as_Scanner :: "string \<Rightarrow> (string \<Rightarrow> error + ScanResult) \<Rightarrow> 's Scanner" where
  "as_Scanner name f = \<lparr>Name = name, Scan = (\<lambda>st content. (f content, st))\<rparr>"

subsection \<open>unicode.go\<close>

definition shouldRemove :: "stdlib \<Rightarrow> rune \<Rightarrow> bool" where
  "shouldRemove lib r =
     (if r = 0x0A \<or> r = 0x09 \<or> r = 0x0D \<or> r = 0x20 then False
      else unicode_In lib r)"

text \<open>
  The loop over the runes of the normalized text: the runes written to the builder and
  the count of those removed.
\<close>

fun strip_runes :: "stdlib \<Rightarrow> rune list \<Rightarrow> rune list \<times> nat" where
  "strip_runes lib [] = ([], 0)"
| "strip_runes lib (r # rs) =
     (case strip_runes lib rs of
        (kept, removed) \<Rightarrow>
          if shouldRemove lib r then (kept, removed + 1) else (r # kept, removed))"

definition UnicodeScanner_Scan :: "stdlib \<Rightarrow> string \<Rightarrow> error + ScanResult" where
  "UnicodeScanner_Scan lib content =
     (let normalized = NFKC lib content;
          (kept, removed) = strip_runes lib (runes normalized);
          cleaned = string_of_runes kept
      in if removed = 0 \<and> cleaned = content then
           Inr \<lparr>Verdict = VerdictPass, Content = content, Threats = [], ScannerName = ''unicode''\<rparr>
         else
           Inr \<lparr>Verdict = VerdictModify, Content = cleaned,
                Threats = (if removed > 0 then [''invisible/control characters removed''] else []),
                ScannerName = ''unicode''\<rparr>)"

definition UnicodeScanner :: "stdlib \<Rightarrow> 's Scanner" where
  "UnicodeScanner lib = as_Scanner ''unicode'' (UnicodeScanner_Scan lib)"

subsection \<open>length.go\<close>

record LengthScanner =
  MaxChars :: int

definition NewLengthScanner :: "int \<Rightarrow> LengthScanner" where
  "NewLengthScanner maxChars = \<lparr>MaxChars = maxChars\<rparr>"

definition LengthScanner_Scan :: "LengthScanner \<Rightarrow> string \<Rightarrow> error + ScanResult" where
  "LengthScanner_Scan s content =
     (if int (length (runes content)) \<le> MaxChars s then
        Inr \<lparr>Verdict = VerdictPass, Content = content, Threats = [], ScannerName = ''length''\<rparr>
      else
        (case slice_to (runes content) (MaxChars s) of
           Inl e \<Rightarrow> Inl e
         | Inr rs \<Rightarrow>
             Inr \<lparr>Verdict = VerdictModify,
                  Content = string_of_runes rs @ [CHR 0x0A] @ ''[truncated]'',
                  Threats = [''response exceeded character limit''],
                  ScannerName = ''length''\<rparr>))"

definition LengthScanner_as_Scanner :: "LengthScanner \<Rightarrow> 's Scanner" where
  "LengthScanner_as_Scanner s = as_Scanner ''length'' (LengthScanner_Scan s)"

subsection \<open>injection.go\<close>

definition builtInInjectionPatterns :: "string list" where
  "builtInInjectionPatterns = map raw
     [''ignore%s+(all%s+)?(previous|prior|above)%s+(instructions?|prompts?|context)'',
      ''disregard%s+(all%s+)?(previous|prior|above)'',
      ''forget%s+(everything|all|your)%s+(instructions?|rules|guidelines|training)'',
      ''forget%s+everything'',
      ''you%s+are%s+now%s+(a|an|the)%s+'',
      ''new%s+instructions?%s*:'',
      ''from%s+now%s+on,?%s+you%s+(are|will|must|should)'',
      ''<%|?im_start%|?>'',
      ''<%|?system%|?>'',
      ''###%s*(System|Instructions?|Rules)%s*%n'',
      ''%[INST%]'',
      ''%[/INST%]'',
      ''<<SYS>>'',
      ''<</SYS>>'',
      ''IMPORTANT:%s*ignore'',
      ''CRITICAL:%s*override'']"

record InjectionScanner =
  patterns :: "Regexp list"

text \<open>
  The loop of \<open>NewInjectionScanner\<close> over the sources: the flag \<open>(?i)\<close> is put in
  front of a source that does not start with it, and the first source that does not
  compile ends the construction with an error.
\<close>

fun compile_sources :: "stdlib \<Rightarrow> string list \<Rightarrow> error + Regexp list" where
  "compile_sources lib [] = Inr []"
| "compile_sources lib (p # ps) =
     (let p' = (if \<not> HasPrefix p ''(?i)'' then ''(?i)'' @ p else p) in
      case Compile lib p' of
        Inl msg \<Rightarrow> Inl (Error (''compiling injection pattern '' @ Quote lib p' @ '': '' @ msg))
      | Inr re \<Rightarrow>
          (case compile_sources lib ps of
             Inl e \<Rightarrow> Inl e
           | Inr compiled \<Rightarrow> Inr (re # compiled)))"

definition NewInjectionScanner :: "stdlib \<Rightarrow> bool \<Rightarrow> string list \<Rightarrow> error + InjectionScanner" where
  "NewInjectionScanner lib disableBuiltIn customPatterns =
     (let sources = (if \<not> disableBuiltIn then builtInInjectionPatterns else []);
          sources = sources @ customPatterns
      in case compile_sources lib sources of
           Inl e \<Rightarrow> Inl e
         | Inr compiled \<Rightarrow> Inr \<lparr>patterns = compiled\<rparr>)"

text \<open>
  The loop shared by the injection and the override scanner: the first expression with
  a non-empty match blocks, with one threat that names it.
\<close>

fun scan_patterns :: "stdlib \<Rightarrow> string \<Rightarrow> string \<Rightarrow> Regexp list \<Rightarrow> string \<Rightarrow> error + ScanResult" where
  "scan_patterns lib name msg [] content =
     Inr \<lparr>Verdict = VerdictPass, Content = content, Threats = [], ScannerName = name\<rparr>"
| "scan_patterns lib name msg (re # res) content =
     (if FindString re content \<noteq> [] then
        Inr \<lparr>Verdict = VerdictBlock, Content = content,
             Threats = [msg @ Quote lib (expr re)], ScannerName = name\<rparr>
      else scan_patterns lib name msg res content)"

definition InjectionScanner_Scan :: "stdlib \<Rightarrow> InjectionScanner \<Rightarrow> string \<Rightarrow> error + ScanResult" where
  "InjectionScanner_Scan lib s content =
     scan_patterns lib ''injection'' ''prompt injection detected: matched pattern ''
       (patterns s) content"

definition InjectionScanner_as_Scanner :: "stdlib \<Rightarrow> InjectionScanner \<Rightarrow> 's Scanner" where
  "InjectionScanner_as_Scanner lib s = as_Scanner ''injection'' (InjectionScanner_Scan lib s)"

subsection \<open>override.go\<close>

definition overridePatterns :: "Regexp list" where
  "overridePatterns =
     [\<lparr>expr = raw ''(?i)you%s+are%s+(now%s+)?acting%s+as'',
       prog = seq [lit_i ''you'', Plus ws, lit_i ''are'', Plus ws,
                   Quest (seq [lit_i ''now'', Plus ws]), lit_i ''acting'', Plus ws, lit_i ''as'']\<rparr>,
      \<lparr>expr = raw ''(?i)(roleplay|role-play|role%s+play)%s+as'',
       prog = seq [alt [lit_i ''roleplay'', lit_i ''role-play'',
                        seq [lit_i ''role'', Plus ws, lit_i ''play'']],
                   Plus ws, lit_i ''as'']\<rparr>,
      \<lparr>expr = raw ''(?i)your%s+(new%s+)?(role|persona|identity)%s+(is|:)'',
       prog = seq [lit_i ''your'', Plus ws, Quest (seq [lit_i ''new'', Plus ws]),
                   alt [lit_i ''role'', lit_i ''persona'', lit_i ''identity''], Plus ws,
                   alt [lit_i ''is'', lit '':'']]\<rparr>,
      \<lparr>expr = raw ''(?i)pretend%s+(to%s+be|you%s+are)'',
       prog = seq [lit_i ''pretend'', Plus ws,
                   alt [seq [lit_i ''to'', Plus ws, lit_i ''be''],
                        seq [lit_i ''you'', Plus ws, lit_i ''are'']]]\<rparr>,
      \<lparr>expr = raw ''(?i)system%s*:%s*you%s+are'',
       prog = seq [lit_i ''system'', Star ws, lit '':'', Star ws, lit_i ''you'', Plus ws,
                   lit_i ''are'']\<rparr>,
      \<lparr>expr = raw ''(?i)switch%s+to%s+.*(mode|persona|role)'',
       prog = seq [lit_i ''switch'', Plus ws, lit_i ''to'', Plus ws, Star any_not_nl,
                   alt [lit_i ''mode'', lit_i ''persona'', lit_i ''role'']]\<rparr>]"

definition OverrideScanner_Scan :: "stdlib \<Rightarrow> string \<Rightarrow> error + ScanResult" where
  "OverrideScanner_Scan lib content =
     scan_patterns lib ''override'' ''system prompt override detected: matched ''
       overridePatterns content"

definition OverrideScanner :: "stdlib \<Rightarrow> 's Scanner" where
  "OverrideScanner lib = as_Scanner ''override'' (OverrideScanner_Scan lib)"

subsection \<open>url.go\<close>

text \<open>
  The three expressions of url.go. The class of \<open>urlExtractor\<close> excludes white space
  and the characters \<open><\<close>, \<open>>\<close>, the double quote, \<open>{\<close>, \<open>}\<close>, \<open>|\<close>, the
  backslash, \<open>^\<close>, the backquote, \<open>[\<close> and \<open>]\<close>. The source text of
  \<open>urlExtractor\<close> holds a double quote, written here as the character 0x22.
\<close>

definition urlExtractor :: Regexp where
  "urlExtractor =
     \<lparr>expr = raw ''https?://[^%s<>'' @ [CHR 0x22] @ raw ''{}|%%^%x60%[%]]+'',
      prog = seq [lit ''http'', Quest (lit ''s''), lit ''://'',
                  Plus (NotCharClass [(9, 10), (12, 13), (32, 32), (0x3C, 0x3C), (0x3E, 0x3E),
                                      (0x22, 0x22), (0x7B, 0x7B), (0x7D, 0x7D), (0x7C, 0x7C),
                                      (0x5C, 0x5C), (0x5E, 0x5E), (0x60, 0x60), (0x5B, 0x5B),
                                      (0x5D, 0x5D)])]\<rparr>"

definition dangerousSchemes :: Regexp where
  "dangerousSchemes =
     \<lparr>expr = raw ''(?i)(javascript%s*:|data%s*:%s*text/html)'',
      prog = alt [seq [lit_i ''javascript'', Star ws, lit '':''],
                  seq [lit_i ''data'', Star ws, lit '':'', Star ws, lit_i ''text/html'']]\<rparr>"

definition exfilPatterns :: Regexp where
  "exfilPatterns =
     \<lparr>expr = raw ''(?i)[?&](secret|token|key|password|api_key|credential|auth|session_id|private_key)='',
      prog = seq [CharClass [(0x3F, 0x3F), (0x26, 0x26)],
                  alt [lit_i ''secret'', lit_i ''token'', lit_i ''key'', lit_i ''password'',
                       lit_i ''api_key'', lit_i ''credential'', lit_i ''auth'',
                       lit_i ''session_id'', lit_i ''private_key''],
                  lit ''='']\<rparr>"

definition URLScanner_Scan :: "stdlib \<Rightarrow> string \<Rightarrow> error + ScanResult" where
  "URLScanner_Scan lib content =
     (let threats = [];
          match = FindString dangerousSchemes content;
          threats = (if match \<noteq> []
                     then threats @ [''dangerous URI scheme detected: '' @ Quote lib (TrimSpace lib match)]
                     else threats);
          urls = FindAllString urlExtractor content;
          threats = threats @ map (\<lambda>u. ''possible data exfiltration URL: '' @ Quote lib u)
                                 (filter (MatchString exfilPatterns) urls)
      in if length threats > 0 then
           Inr \<lparr>Verdict = VerdictBlock, Content = content, Threats = threats, ScannerName = ''url''\<rparr>
         else
           Inr \<lparr>Verdict = VerdictPass, Content = content, Threats = [], ScannerName = ''url''\<rparr>)"

definition URLScanner :: "stdlib \<Rightarrow> 's Scanner" where
  "URLScanner lib = as_Scanner ''url'' (URLScanner_Scan lib)"

subsection \<open>boundary.go\<close>

record BoundaryScanner =
  Source :: string

definition NewBoundaryScanner :: "string \<Rightarrow> BoundaryScanner" where
  "NewBoundaryScanner source = \<lparr>Source = source\<rparr>"

definition BoundaryScanner_Scan :: "stdlib \<Rightarrow> BoundaryScanner \<Rightarrow> string \<Rightarrow> error + ScanResult" where
  "BoundaryScanner_Scan lib s content =
     (let wrapped = ''<external_tool_response source='' @ Quote lib (Source s) @ ''>'' @ [CHR 0x0A]
                    @ content @ [CHR 0x0A] @ ''</external_tool_response>''
      in Inr \<lparr>Verdict = VerdictModify, Content = wrapped, Threats = [], ScannerName = ''boundary''\<rparr>)"

definition BoundaryScanner_as_Scanner :: "stdlib \<Rightarrow> BoundaryScanner \<Rightarrow> 's Scanner" where
  "BoundaryScanner_as_Scanner lib s = as_Scanner ''boundary'' (BoundaryScanner_Scan lib s)"

section \<open>Sanitization configuration and merging (package config)\<close>

text \<open>
  A pointer field of the Go struct is an \<open>option\<close>: \<open>None\<close> is nil. Go's \<open>int\<close>
  is only compared here, never computed with, so it is an \<open>int\<close>.
\<close>

record SanitizationConfig =
  MaxResponseChars :: "int option"
  EnablePromptInjectionDetection :: "bool option"
  EnableInvisibleTextRemoval :: "bool option"
  EnableURLValidation :: "bool option"
  EnableBoundaryInjection :: "bool option"
  EnableSystemOverrideDetection :: "bool option"
  DisableBuiltInPatterns :: "bool option"
  CustomInjectionPatterns :: "string list"

definition Merge :: "SanitizationConfig \<Rightarrow> SanitizationConfig option \<Rightarrow> SanitizationConfig" where
  "Merge global override =
     (case override of
        None \<Rightarrow> global
      | Some ov \<Rightarrow>
          (let merged = global;
               merged = (if MaxResponseChars ov \<noteq> None
                         then merged\<lparr>MaxResponseChars := MaxResponseChars ov\<rparr> else merged);
               merged = (if EnablePromptInjectionDetection ov \<noteq> None
                         then merged\<lparr>EnablePromptInjectionDetection := EnablePromptInjectionDetection ov\<rparr>
                         else merged);
               merged = (if EnableInvisibleTextRemoval ov \<noteq> None
                         then merged\<lparr>EnableInvisibleTextRemoval := EnableInvisibleTextRemoval ov\<rparr>
                         else merged);
               merged = (if EnableURLValidation ov \<noteq> None
                         then merged\<lparr>EnableURLValidation := EnableURLValidation ov\<rparr> else merged);
               merged = (if EnableBoundaryInjection ov \<noteq> None
                         then merged\<lparr>EnableBoundaryInjection := EnableBoundaryInjection ov\<rparr>
                         else merged);
               merged = (if EnableSystemOverrideDetection ov \<noteq> None
                         then merged\<lparr>EnableSystemOverrideDetection := EnableSystemOverrideDetection ov\<rparr>
                         else merged);
               merged = (if DisableBuiltInPatterns ov \<noteq> None
                         then merged\<lparr>DisableBuiltInPatterns := DisableBuiltInPatterns ov\<rparr>
                         else merged);
               merged = (if length (CustomInjectionPatterns ov) > 0
                         then merged\<lparr>CustomInjectionPatterns := CustomInjectionPatterns ov\<rparr>
                         else merged)
           in merged))"

text \<open>How an optional field of the override combines with the global value.\<close>

definition override_or_inherit :: "'a option \<Rightarrow> 'a option \<Rightarrow> 'a option" where
  "override_or_inherit ov g = (case ov of Some v \<Rightarrow> Some v | None \<Rightarrow> g)"

subsection \<open>Loading and validating (config.go)\<close>

record HTTPConfig =
  Addr :: string
  Path :: string

record UpstreamConfig =
  Transport :: string
  HTTP :: HTTPConfig

record DownstreamConfig =
  ds_Name :: string
  ds_Transport :: string
  Command :: "string list"
  URL :: string
  ds_Sanitization :: "SanitizationConfig option"

record Config =
  Upstream :: UpstreamConfig
  Downstream :: "DownstreamConfig list"
  Sanitization :: SanitizationConfig

definition TransportStdio :: string where "TransportStdio = ''stdio''"
definition TransportHTTP :: string where "TransportHTTP = ''http''"
definition DefaultMaxResponseChars :: int where "DefaultMaxResponseChars = 16000"
definition DefaultHTTPAddr :: string where "DefaultHTTPAddr = '':8080''"
definition DefaultHTTPPath :: string where "DefaultHTTPPath = ''/mcp''"

text \<open>
  \<open>validName\<close>, compiled from \<open>^[a-zA-Z0-9][a-zA-Z0-9_-]*$\<close>. Without the flag m,
  \<open>^\<close> and \<open>$\<close> match at the beginning and at the end of the text only.
\<close>

definition validName :: Regexp where
  "validName =
     \<lparr>expr = ''^[a-zA-Z0-9][a-zA-Z0-9_-]*$'',
      prog = seq [BeginText,
                  CharClass [(0x61, 0x7A), (0x41, 0x5A), (0x30, 0x39)],
                  Star (CharClass [(0x61, 0x7A), (0x41, 0x5A), (0x30, 0x39), (0x5F, 0x5F), (0x2D, 0x2D)]),
                  EndText]\<rparr>"

text \<open>
  The errors of the package, one constructor for each message of the source with the
  values the message is formatted from (indices, names, patterns, the text of the
  error it wraps).
\<close>

datatype config_error =
    ReadingConfig string string
  | ParsingConfig string
  | ValidatingConfig config_error
  | UpstreamTransport string
  | NoDownstream
  | NameRequired nat
  | NameMustMatch nat string
  | NameReserved nat string
  | DuplicateName nat string
  | DownstreamTransport nat string string
  | CommandRequired nat string
  | URLRequired nat string
  | InvalidPattern nat string string
  | InvalidDownstreamPattern nat string nat string string

definition applyDefaults :: "Config \<Rightarrow> Config" where
  "applyDefaults cfg =
     (let up = Upstream cfg;
          up = (if Transport up = [] then up\<lparr>Transport := TransportStdio\<rparr> else up);
          up = (if Addr (HTTP up) = [] then up\<lparr>HTTP := (HTTP up)\<lparr>Addr := DefaultHTTPAddr\<rparr>\<rparr> else up);
          up = (if Path (HTTP up) = [] then up\<lparr>HTTP := (HTTP up)\<lparr>Path := DefaultHTTPPath\<rparr>\<rparr> else up);
          sa = Sanitization cfg;
          sa = (if MaxResponseChars sa = None
                then sa\<lparr>MaxResponseChars := Some DefaultMaxResponseChars\<rparr> else sa);
          sa = (if EnablePromptInjectionDetection sa = None
                then sa\<lparr>EnablePromptInjectionDetection := Some True\<rparr> else sa);
          sa = (if EnableInvisibleTextRemoval sa = None
                then sa\<lparr>EnableInvisibleTextRemoval := Some True\<rparr> else sa);
          sa = (if EnableURLValidation sa = None
                then sa\<lparr>EnableURLValidation := Some True\<rparr> else sa);
          sa = (if EnableBoundaryInjection sa = None
                then sa\<lparr>EnableBoundaryInjection := Some True\<rparr> else sa);
          sa = (if EnableSystemOverrideDetection sa = None
                then sa\<lparr>EnableSystemOverrideDetection := Some True\<rparr> else sa);
          sa = (if DisableBuiltInPatterns sa = None
                then sa\<lparr>DisableBuiltInPatterns := Some False\<rparr> else sa)
      in cfg\<lparr>Upstream := up, Sanitization := sa\<rparr>)"

text \<open>
  The first loop of \<open>validate\<close>, over the downstream servers from index \<open>i\<close> on;
  \<open>names\<close> is the set of the names seen so far. \<open>None\<close> is a nil error.
\<close>

fun validate_downstreams :: "nat \<Rightarrow> string set \<Rightarrow> DownstreamConfig list \<Rightarrow> config_error option" where
  "validate_downstreams i names [] = None"
| "validate_downstreams i names (ds # rest) =
     (if ds_Name ds = [] then Some (NameRequired i)
      else if \<not> MatchString validName (ds_Name ds) then Some (NameMustMatch i (ds_Name ds))
      else if Contains (ds_Name ds) ''__'' then Some (NameReserved i (ds_Name ds))
      else if ds_Name ds \<in> names then Some (DuplicateName i (ds_Name ds))
      else if ds_Transport ds \<noteq> TransportStdio \<and> ds_Transport ds \<noteq> TransportHTTP
        then Some (DownstreamTransport i (ds_Name ds) (ds_Transport ds))
      else if ds_Transport ds = TransportStdio \<and> length (Command ds) = 0
        then Some (CommandRequired i (ds_Name ds))
      else if ds_Transport ds = TransportHTTP \<and> URL ds = []
        then Some (URLRequired i (ds_Name ds))
      else validate_downstreams (i + 1) (insert (ds_Name ds) names) rest)"

text \<open>The loop over a list of custom patterns: the first that does not compile, with its index.\<close>

fun first_invalid :: "stdlib \<Rightarrow> nat \<Rightarrow> string list \<Rightarrow> (nat \<times> string \<times> string) option" where
  "first_invalid lib i [] = None"
| "first_invalid lib i (pattern # rest) =
     (case Compile lib pattern of
        Inl msg \<Rightarrow> Some (i, pattern, msg)
      | Inr re \<Rightarrow> first_invalid lib (i + 1) rest)"

text \<open>The last loop of \<open>validate\<close>, over the patterns of each downstream server.\<close>

fun validate_downstream_patterns :: "stdlib \<Rightarrow> nat \<Rightarrow> DownstreamConfig list \<Rightarrow> config_error option" where
  "validate_downstream_patterns lib di [] = None"
| "validate_downstream_patterns lib di (ds # rest) =
     (case ds_Sanitization ds of
        None \<Rightarrow> validate_downstream_patterns lib (di + 1) rest
      | Some sa \<Rightarrow>
          (case first_invalid lib 0 (CustomInjectionPatterns sa) of
             Some (i, pattern, msg) \<Rightarrow> Some (InvalidDownstreamPattern di (ds_Name ds) i pattern msg)
           | None \<Rightarrow> validate_downstream_patterns lib (di + 1) rest))"

definition validate :: "stdlib \<Rightarrow> Config \<Rightarrow> config_error option" where
  "validate lib cfg =
     (if Transport (Upstream cfg) \<noteq> TransportStdio \<and> Transport (Upstream cfg) \<noteq> TransportHTTP
        then Some (UpstreamTransport (Transport (Upstream cfg)))
      else if length (Downstream cfg) = 0 then Some NoDownstream
      else (case validate_downstreams 0 {} (Downstream cfg) of
              Some e \<Rightarrow> Some e
            | None \<Rightarrow>
                (case first_invalid lib 0 (CustomInjectionPatterns (Sanitization cfg)) of
                   Some (i, pattern, msg) \<Rightarrow> Some (InvalidPattern i pattern msg)
                 | None \<Rightarrow> validate_downstream_patterns lib 0 (Downstream cfg))))"

text \<open>
  \<open>Load\<close>. Reading the file and decoding its JSON belong to the operating system
  and to encoding/json: \<open>ReadFile\<close> gives the bytes of a path or the text of an
  error, \<open>Unmarshal\<close> the configuration a document decodes to or the text of an error.
\<close>

definition Load ::
  "stdlib \<Rightarrow> (string \<Rightarrow> string + string) \<Rightarrow> (string \<Rightarrow> string + Config) \<Rightarrow> string \<Rightarrow>
   config_error + Config" where
  "Load lib ReadFile Unmarshal path =
     (case ReadFile path of
        Inl err \<Rightarrow> Inl (ReadingConfig path err)
      | Inr data \<Rightarrow>
          (case Unmarshal data of
             Inl err \<Rightarrow> Inl (ParsingConfig err)
           | Inr parsed \<Rightarrow>
               (let cfg = applyDefaults parsed in
                case validate lib cfg of
                  Some err \<Rightarrow> Inl (ValidatingConfig err)
                | None \<Rightarrow> Inr cfg)))"

section \<open>Building the pipeline and sanitizing a result (package gateway)\<close>

definition deref :: "bool option \<Rightarrow> bool" where
  "deref b = (case b of None \<Rightarrow> False | Some v \<Rightarrow> v)"

definition BuildPipeline :: "stdlib \<Rightarrow> SanitizationConfig \<Rightarrow> string \<Rightarrow> error + 's Pipeline" where
  "BuildPipeline lib cfg source =
     (let scanners0 = [];
          scanners1 = (if deref (EnableInvisibleTextRemoval cfg)
                       then scanners0 @ [UnicodeScanner lib] else scanners0);
          scanners2 = (case MaxResponseChars cfg of
                         None \<Rightarrow> scanners1
                       | Some n \<Rightarrow>
                           if n > 0 then scanners1 @ [LengthScanner_as_Scanner (NewLengthScanner n)]
                           else scanners1)
      in case (if deref (EnablePromptInjectionDetection cfg)
               then (case NewInjectionScanner lib (deref (DisableBuiltInPatterns cfg))
                            (CustomInjectionPatterns cfg) of
                       Inl (Error msg) \<Rightarrow> Inl (Error (''injection scanner: '' @ msg))
                     | Inl (Panic msg) \<Rightarrow> Inl (Panic msg)
                     | Inr s \<Rightarrow> Inr (scanners2 @ [InjectionScanner_as_Scanner lib s]))
               else Inr scanners2) of
           Inl e \<Rightarrow> Inl e
         | Inr scanners3 \<Rightarrow>
             (let scanners4 = (if deref (EnableSystemOverrideDetection cfg)
                               then scanners3 @ [OverrideScanner lib] else scanners3);
                  scanners5 = (if deref (EnableURLValidation cfg)
                               then scanners4 @ [URLScanner lib] else scanners4);
                  scanners6 = (if deref (EnableBoundaryInjection cfg)
                               then scanners5 @ [BoundaryScanner_as_Scanner lib (NewBoundaryScanner source)]
                               else scanners5)
              in Inr (NewPipeline scanners6)))"

text \<open>
  The content items and the call result of the protocol SDK, with the fields the code
  reads or writes. The types of the annotations, of the metadata and of the structured
  content are the SDK's; nothing is known of them here.
\<close>

typedecl Annotations
typedecl Meta
typedecl StructuredContent

datatype mcp_Content =
    TextContent (Text: string) (tc_Meta: "Meta option") (tc_Annotations: "Annotations option")
  | OtherContent string

record CallToolResult =
  ctr_Meta :: "Meta option"
  ctr_Content :: "mcp_Content list"
  ctr_StructuredContent :: "StructuredContent option"
  IsError :: bool

text \<open>
  The loop of \<open>sanitizeResult\<close> over the content items: \<open>seen\<close> holds the items
  behind the loop as the result now has them (a modified text item replaced), \<open>items\<close>
  those still to come. The loop ends with an error, with the result that replaces a
  blocked one, or with the items of the result. The warning that the source logs on a
  block is not modelled.
\<close>

fun sanitize_items ::
  "'s Pipeline \<Rightarrow> 's \<Rightarrow> mcp_Content list \<Rightarrow> mcp_Content list \<Rightarrow>
   (error + CallToolResult + mcp_Content list) \<times> 's" where
  "sanitize_items pipeline st seen [] = (Inr (Inr seen), st)"
| "sanitize_items pipeline st seen (OtherContent c # items) =
     sanitize_items pipeline st (seen @ [OtherContent c]) items"
| "sanitize_items pipeline st seen (TextContent t m a # items) =
     (case Process pipeline st t of
        ((pr, Some err), st') \<Rightarrow> (Inl err, st')
      | ((pr, None), st') \<Rightarrow>
          (case FinalVerdict pr of
             VerdictBlock \<Rightarrow>
               (let reason = ''blocked by sanitization'';
                    reason = (if length (AllThreats pr) > 0 then Join (AllThreats pr) ''; ''
                              else reason)
                in (Inr (Inl \<lparr>ctr_Meta = None,
                              ctr_Content = [TextContent reason None None],
                              ctr_StructuredContent = None,
                              IsError = True\<rparr>), st'))
           | VerdictModify \<Rightarrow>
               sanitize_items pipeline st' (seen @ [TextContent (FinalContent pr) None a]) items
           | VerdictPass \<Rightarrow> sanitize_items pipeline st' (seen @ [TextContent t m a]) items))"

definition sanitizeResult ::
  "CallToolResult \<Rightarrow> 's Pipeline \<Rightarrow> 's \<Rightarrow> (error + CallToolResult) \<times> 's" where
  "sanitizeResult result pipeline st =
     (case sanitize_items pipeline st [] (ctr_Content result) of
        (Inl err, st') \<Rightarrow> (Inl err, st')
      | (Inr (Inl blocked), st') \<Rightarrow> (Inr blocked, st')
      | (Inr (Inr items), st') \<Rightarrow> (Inr (result\<lparr>ctr_Content := items\<rparr>), st'))"

text \<open>
  The handler that \<open>proxyHandler\<close> returns. The downstream manager and the session
  are the SDK's: \<open>Session\<close> looks the session of a server up, \<open>CallTool\<close> forwards
  the call and gives the downstream result or the text of an error.
\<close>

definition proxyHandler ::
  "(string \<Rightarrow> 'sess option) \<Rightarrow> ('sess \<Rightarrow> string \<Rightarrow> 'args \<Rightarrow> 's \<Rightarrow> (string + CallToolResult) \<times> 's) \<Rightarrow>
   string \<Rightarrow> string \<Rightarrow> string \<Rightarrow> 's Pipeline \<Rightarrow> 's \<Rightarrow> 'args \<Rightarrow> (error + CallToolResult) \<times> 's" where
  "proxyHandler Session CallTool serverName downstreamName namespacedName pipeline st args =
     (case Session serverName of
        None \<Rightarrow> (Inl (Error (''downstream '' @ serverName @ '' not connected'')), st)
      | Some session \<Rightarrow>
          (case CallTool session downstreamName args st of
             (Inl err, st') \<Rightarrow>
               (Inl (Error (''downstream call '' @ namespacedName @ '': '' @ err)), st')
           | (Inr result, st') \<Rightarrow> sanitizeResult result pipeline st'))"

section \<open>A reference instance of the library\<close>

text \<open>
  To run the model on concrete inputs the library parameters need values. The instance
  below agrees with the Go libraries on the inputs it is used on in this theory, and
  says where it stops doing so:
  \<^item> the general categories Cf, Co and Cc are the tables of Unicode 15.0.0, the version
    of Go's unicode package;
  \<^item> the normalizer is the identity: \<open>norm.NFKC.String\<close> returns a text that is
    already in NFKC form as it is, which covers ASCII text, text with U+200B in it, and
    ill-formed bytes (the normalizer copies them);
  \<^item> the parser knows the built-in injection patterns (with the flag \<open>(?i)\<close> that
    \<open>NewInjectionScanner\<close> puts in front) and the custom patterns of the repository's
    tests, and rejects every other source, among them the ill-formed \<open>[invalid\<close> of
    the tests;
  \<^item> \<open>%q\<close> and \<open>TrimSpace\<close> are right on ASCII text.
\<close>

definition unicode_Cf_Co_Cc :: "(rune \<times> rune) list" where
  "unicode_Cf_Co_Cc =
     [(0x00, 0x1F), (0x7F, 0x9F),
      (0xAD, 0xAD), (0x600, 0x605), (0x61C, 0x61C), (0x6DD, 0x6DD), (0x70F, 0x70F),
      (0x890, 0x891), (0x8E2, 0x8E2), (0x180E, 0x180E), (0x200B, 0x200F), (0x202A, 0x202E),
      (0x2060, 0x2064), (0x2066, 0x206F), (0xFEFF, 0xFEFF), (0xFFF9, 0xFFFB),
      (0x110BD, 0x110BD), (0x110CD, 0x110CD), (0x13430, 0x1343F), (0x1BCA0, 0x1BCA3),
      (0x1D173, 0x1D17A), (0xE0001, 0xE0001), (0xE0020, 0xE007F),
      (0xE000, 0xF8FF), (0xF0000, 0xFFFFD), (0x100000, 0x10FFFD)]"

definition builtIn_trees :: "rx list" where
  "builtIn_trees =
     [seq [lit_i ''ignore'', Plus ws, Quest (seq [lit_i ''all'', Plus ws]),
           alt [lit_i ''previous'', lit_i ''prior'', lit_i ''above''], Plus ws,
           alt [seq [lit_i ''instruction'', Quest (lit_i ''s'')],
                seq [lit_i ''prompt'', Quest (lit_i ''s'')], lit_i ''context'']],
      seq [lit_i ''disregard'', Plus ws, Quest (seq [lit_i ''all'', Plus ws]),
           alt [lit_i ''previous'', lit_i ''prior'', lit_i ''above'']],
      seq [lit_i ''forget'', Plus ws, alt [lit_i ''everything'', lit_i ''all'', lit_i ''your''],
           Plus ws,
           alt [seq [lit_i ''instruction'', Quest (lit_i ''s'')], lit_i ''rules'',
                lit_i ''guidelines'', lit_i ''training'']],
      seq [lit_i ''forget'', Plus ws, lit_i ''everything''],
      seq [lit_i ''you'', Plus ws, lit_i ''are'', Plus ws, lit_i ''now'', Plus ws,
           alt [lit_i ''a'', lit_i ''an'', lit_i ''the''], Plus ws],
      seq [lit_i ''new'', Plus ws, lit_i ''instruction'', Quest (lit_i ''s''), Star ws, lit '':''],
      seq [lit_i ''from'', Plus ws, lit_i ''now'', Plus ws, lit_i ''on'', Quest (lit '',''),
           Plus ws, lit_i ''you'', Plus ws,
           alt [lit_i ''are'', lit_i ''will'', lit_i ''must'', lit_i ''should'']],
      seq [lit ''<'', Quest (lit ''|''), lit_i ''im_start'', Quest (lit ''|''), lit ''>''],
      seq [lit ''<'', Quest (lit ''|''), lit_i ''system'', Quest (lit ''|''), lit ''>''],
      seq [lit ''###'', Star ws,
           alt [lit_i ''System'', seq [lit_i ''Instruction'', Quest (lit_i ''s'')], lit_i ''Rules''],
           Star ws, CharClass [(0x0A, 0x0A)]],
      lit_i ''[INST]'',
      lit_i ''[/INST]'',
      lit_i ''<<SYS>>'',
      lit_i ''<</SYS>>'',
      seq [lit_i ''IMPORTANT:'', Star ws, lit_i ''ignore''],
      seq [lit_i ''CRITICAL:'', Star ws, lit_i ''override'']]"

definition reference_parse :: "string \<Rightarrow> string + rx" where
  "reference_parse p =
     (case map_of
             (zip (map (\<lambda>p. ''(?i)'' @ p) builtInInjectionPatterns) builtIn_trees
              @ [(''(?i)banana'', lit_i ''banana''),
                 (''banana'', lit ''banana''),
                 (raw ''(?i)secret%s+word'', seq [lit_i ''secret'', Plus ws, lit_i ''word'']),
                 (raw ''secret%s+word'', seq [lit ''secret'', Plus ws, lit ''word''])]) p of
        Some t \<Rightarrow> Inr t
      | None \<Rightarrow> Inl ''error parsing regexp'')"

definition hex_digit :: "nat \<Rightarrow> char" where
  "hex_digit d = (if d < 10 then char_of (0x30 + d) else char_of (0x61 + (d - 10)))"

definition quote_byte :: "char \<Rightarrow> string" where
  "quote_byte c =
     (let b = (of_char c :: nat) in
      if c = CHR 0x22 \<or> c = CHR 0x5C then [CHR 0x5C, c]
      else if b = 0x07 then [CHR 0x5C, CHR ''a'']
      else if b = 0x08 then [CHR 0x5C, CHR ''b'']
      else if b = 0x0C then [CHR 0x5C, CHR ''f'']
      else if b = 0x0A then [CHR 0x5C, CHR ''n'']
      else if b = 0x0D then [CHR 0x5C, CHR ''r'']
      else if b = 0x09 then [CHR 0x5C, CHR ''t'']
      else if b = 0x0B then [CHR 0x5C, CHR ''v'']
      else if b < 0x20 \<or> b = 0x7F then [CHR 0x5C, CHR ''x'', hex_digit (b div 16), hex_digit (b mod 16)]
      else [c])"

definition quote_ascii :: "string \<Rightarrow> string" where
  "quote_ascii s = [CHR 0x22] @ concat (map quote_byte s) @ [CHR 0x22]"

definition ascii_space :: "char \<Rightarrow> bool" where
  "ascii_space c = (c = CHR 0x09 \<or> c = CHR 0x0A \<or> c = CHR 0x0B \<or> c = CHR 0x0C \<or> c = CHR 0x0D \<or> c = CHR 0x20)"

definition trim_ascii :: "string \<Rightarrow> string" where
  "trim_ascii s = rev (dropWhile ascii_space (rev (dropWhile ascii_space s)))"

definition reference_lib :: stdlib where
  "reference_lib =
     \<lparr>NFKC = (\<lambda>s. s),
      unicode_In = (\<lambda>r. in_class r unicode_Cf_Co_Cc),
      regexp_parse = reference_parse,
      Quote = quote_ascii,
      TrimSpace = trim_ascii\<rparr>"

section \<open>Notions the properties are stated with\<close>

text \<open>
  The source text an injection pattern is compiled from: the pattern itself when it
  starts with the flag \<open>(?i)\<close>, the pattern behind that flag otherwise.
\<close>

definition with_flag_i :: "string \<Rightarrow> string" where
  "with_flag_i p = (if \<not> HasPrefix p ''(?i)'' then ''(?i)'' @ p else p)"

text \<open>
  What makes \<open>validate\<close> reject one downstream server on its own: a name that holds
  the separator or does not match \<open>validName\<close> (the empty name among them), a
  transport that is neither of the two, no command under stdio, no URL under http.
  A pattern is invalid when it does not compile.
\<close>

definition downstream_invalid :: "DownstreamConfig \<Rightarrow> bool" where
  "downstream_invalid ds =
     (Contains (ds_Name ds) ''__''
      \<or> (ds_Transport ds \<noteq> TransportStdio \<and> ds_Transport ds \<noteq> TransportHTTP)
      \<or> (ds_Transport ds = TransportStdio \<and> Command ds = [])
      \<or> (ds_Transport ds = TransportHTTP \<and> URL ds = [])
      \<or> \<not> MatchString validName (ds_Name ds))"

definition pattern_invalid :: "stdlib \<Rightarrow> string \<Rightarrow> bool" where
  "pattern_invalid lib p = isl (Compile lib p)"

definition downstream_patterns_invalid :: "stdlib \<Rightarrow> DownstreamConfig \<Rightarrow> bool" where
  "downstream_patterns_invalid lib ds =
     (case ds_Sanitization ds of
        None \<Rightarrow> False
      | Some sa \<Rightarrow> list_ex (pattern_invalid lib) (CustomInjectionPatterns sa))"

section \<open>Concrete inputs\<close>

text \<open>
  The inputs the properties below are run on: the injection scanner of the built-in
  patterns and the compiled custom pattern \<open>banana\<close> (as the reference parser
  compiles them), the text \<open>hello\<close>, U+200B, \<open>world\<close> of the repository's tests,
  a configuration with every stage but the boundary enabled and one with the three
  detectors only, each with the pipeline that \<open>BuildPipeline\<close> makes of it, a
  pipeline and a downstream result for the proxy handler, and the configuration that
  the document of the test \<open>TestLoad_DefaultsApplied\<close> decodes to.
\<close>

definition builtIn_scanner :: InjectionScanner where
  "builtIn_scanner =
     \<lparr>patterns = map (\<lambda>(p, t). \<lparr>expr = ''(?i)'' @ p, prog = t\<rparr>)
                   (zip builtInInjectionPatterns builtIn_trees)\<rparr>"

definition banana :: Regexp where
  "banana = \<lparr>expr = ''(?i)banana'', prog = lit_i ''banana''\<rparr>"

definition zwsp_text :: string where
  "zwsp_text = ''hello'' @ [CHR 0xE2, CHR 0x80, CHR 0x8B] @ ''world''"

definition protected_config :: SanitizationConfig where
  "protected_config =
     \<lparr>MaxResponseChars = Some 16000,
      EnablePromptInjectionDetection = Some True,
      EnableInvisibleTextRemoval = Some True,
      EnableURLValidation = Some True,
      EnableBoundaryInjection = Some False,
      EnableSystemOverrideDetection = Some True,
      DisableBuiltInPatterns = Some False,
      CustomInjectionPatterns = []\<rparr>"

definition protected_pipeline :: "unit Pipeline" where
  "protected_pipeline =
     NewPipeline [UnicodeScanner reference_lib, LengthScanner_as_Scanner (NewLengthScanner 16000),
                  InjectionScanner_as_Scanner reference_lib builtIn_scanner,
                  OverrideScanner reference_lib, URLScanner reference_lib]"



definition banana_pipeline :: "unit Pipeline" where
  "banana_pipeline = NewPipeline [InjectionScanner_as_Scanner reference_lib \<lparr>patterns = [banana]\<rparr>]"

definition banana_result :: CallToolResult where
  "banana_result =
     \<lparr>ctr_Meta = None,
      ctr_Content = [TextContent ''I like apples'' None None, OtherContent ''image'',
                     TextContent ''I like banana'' None None, TextContent ''later'' None None],
      ctr_StructuredContent = None,
      IsError = False\<rparr>"

definition defaults_config :: Config where
  "defaults_config =
     \<lparr>Upstream = \<lparr>Transport = [], HTTP = \<lparr>Addr = [], Path = []\<rparr>\<rparr>,
      Downstream = [\<lparr>ds_Name = ''a'', ds_Transport = ''stdio'', Command = [''x''], URL = [],
                     ds_Sanitization = None\<rparr>],
      Sanitization = \<lparr>MaxResponseChars = None, EnablePromptInjectionDetection = None,
                      EnableInvisibleTextRemoval = None, EnableURLValidation = None,
                      EnableBoundaryInjection = None, EnableSystemOverrideDetection = None,
                      DisableBuiltInPatterns = None, CustomInjectionPatterns = []\<rparr>\<rparr>"

section \<open>Evaluating the model\<close>

text \<open>
  The equations that \<open>simp\<close> needs to run the decoder, the matcher and the reference
  library on a concrete text.
\<close>

lemmas utf8_eval = runes_def string_of_runes_def encoderune_def Let_def locb_hicb_def
  RuneError_def char_of_eq_iff

lemmas rx_eval = MatchString_def FindString_def FindAllString_def match_text_def width_def
  Let_def lit_def lit_i_def ws_def any_not_nl_def Plus_def Quest_def fold_rune_def in_class_def
  locb_hicb_def RuneError_def pm.simps(8) find_all.simps

lemmas lib_eval = reference_lib_def quote_ascii_def quote_byte_def trim_ascii_def ascii_space_def
  raw_def hex_digit_def

section \<open>Properties of the decoder and of the matcher\<close>

lemma decoderune_width: "1 \<le> snd (decoderune (c # s)) \<and> snd (decoderune (c # s)) \<le> Suc (length s)"
  by (simp add: Let_def)

lemma width_decode: "width (decode s) = length s"
proof (induction s rule: decode.induct)
  case 1
  then show ?case by (simp add: width_def)
next
  case (2 c s)
  obtain r w where rw: "decoderune (c # s) = (r, w)" by (cases "decoderune (c # s)")
  with decoderune_width[of c s] have w: "1 \<le> w" "w \<le> Suc (length s)" by simp_all
  from 2[OF rw[symmetric] refl] have "width (decode (drop (w - 1) s)) = length s - (w - 1)"
    by simp
  with rw w show ?case by (simp add: width_def)
qed

lemma decode_width_pos: "x \<in> set (decode s) \<Longrightarrow> 1 \<le> snd x"
proof (induction s arbitrary: x rule: decode.induct)
  case 1
  then show ?case by simp
next
  case (2 c s)
  obtain r w where rw: "decoderune (c # s) = (r, w)" by (cases "decoderune (c # s)")
  with decoderune_width[of c s] have w: "1 \<le> w" by simp
  from 2(2) rw have "x = (r, w) \<or> x \<in> set (decode (drop (w - 1) s))" by simp
  then show ?case
  proof
    assume "x = (r, w)" with w show ?thesis by simp
  next
    assume "x \<in> set (decode (drop (w - 1) s))"
    from 2(1)[OF rw[symmetric] refl this] show ?thesis .
  qed
qed

lemma width_append: "width (a @ b) = width a + width b"
  by (simp add: width_def)

lemma width_pos: "m \<noteq> [] \<Longrightarrow> \<forall>x \<in> set m. 1 \<le> snd x \<Longrightarrow> 0 < width m"
  by (cases m) (auto simp: width_def)

lemma pm_length_le: "e \<in> set (pm n r s) \<Longrightarrow> length e \<le> length s"
proof -
  assume "e \<in> set (pm n r s)"
  from pm_suffix[OF this] obtain pre where "s = pre @ e" by blast
  then show ?thesis by simp
qed

lemma pm_not_nullable:
  "\<not> nullable r \<Longrightarrow> e \<in> set (pm n r s) \<Longrightarrow> length e < length s"
proof (induction r arbitrary: e s)
  case (CharClass rs)
  then show ?case by (cases s) (auto split: if_splits)
next
  case (NotCharClass rs)
  then show ?case by (cases s) (auto split: if_splits)
next
  case (Concat a b)
  from Concat.prems(2) obtain m where m: "m \<in> set (pm n a s)" and e: "e \<in> set (pm n b m)"
    by auto
  from Concat.prems(1) have "\<not> nullable a \<or> \<not> nullable b" by simp
  then show ?case
  proof
    assume "\<not> nullable a"
    from Concat.IH(1)[OF this m] pm_length_le[OF e] show ?thesis by simp
  next
    assume "\<not> nullable b"
    from Concat.IH(2)[OF this e] pm_length_le[OF m] show ?thesis by simp
  qed
next
  case (Alternate a b)
  from Alternate.prems(2) have "e \<in> set (pm n a s) \<or> e \<in> set (pm n b s)" by simp
  with Alternate.IH Alternate.prems(1) show ?case by auto
qed simp_all

lemma match_text_nonempty:
  assumes "decode s = p @ m @ e" and "m \<noteq> []"
  shows "match_text s (m @ e, e) \<noteq> []"
proof -
  have "\<forall>x \<in> set m. 1 \<le> snd x"
    using decode_width_pos[of _ s] assms(1) by simp
  with assms(2) have pos: "0 < width m" by (rule width_pos)
  have len: "length s = width p + width m + width e"
    using width_decode[of s] assms(1) by (simp add: width_append)
  have "match_text s (m @ e, e) = take (width m) (drop (width p) s)"
    using len by (simp add: match_text_def width_append)
  moreover have "length (take (width m) (drop (width p) s)) = width m"
    using len by simp
  ultimately show ?thesis using pos by auto
qed

lemma FindString_nonempty_iff:
  assumes "\<not> nullable (prog re)"
  shows "FindString re s \<noteq> [] \<longleftrightarrow> MatchString re s"
proof (cases "search (length (decode s)) (prog re) (decode s)")
  case None
  then show ?thesis by (simp add: FindString_def MatchString_def)
next
  case (Some a)
  obtain st e where a: "a = (st, e)" by (cases a)
  from search_suffix[OF Some[unfolded a]] obtain p m where
    p: "decode s = p @ st" and m: "st = m @ e" and mem: "e \<in> set (pm (length (decode s)) (prog re) st)"
    by blast
  from pm_not_nullable[OF assms mem] m have "m \<noteq> []" by auto
  with match_text_nonempty[of s p m e] p m have "match_text s (st, e) \<noteq> []" by simp
  with Some a show ?thesis by (simp add: FindString_def MatchString_def)
qed

lemma not_MatchString_FindString: "\<not> MatchString re s \<Longrightarrow> FindString re s = []"
  by (cases "search (length (decode s)) (prog re) (decode s)")
     (simp_all add: FindString_def MatchString_def Let_def)

lemma dangerousSchemes_not_nullable: "\<not> nullable (prog dangerousSchemes)"
  by (simp add: dangerousSchemes_def lit_def lit_i_def)

lemma validName_empty: "\<not> MatchString validName []"
  by (simp add: validName_def rx_eval)

section \<open>Properties of the pipeline\<close>

lemma process_loop_stages_run:
  "stages_run ss st c = Some (srs, st1, c1) \<Longrightarrow> FinalVerdict result \<noteq> VerdictBlock \<Longrightarrow>
   \<exists>v. v \<noteq> VerdictBlock \<and>
     process_loop (ss @ rest) st c result =
       process_loop rest st1 c1
         (result\<lparr>FinalVerdict := v,
                  ScanResults := ScanResults result @ srs,
                  AllThreats := AllThreats result @ concat (map Threats srs)\<rparr>)"
proof (induction ss arbitrary: st c result srs)
  case Nil
  then show ?case
    by (intro exI[of _ "FinalVerdict result"]) simp
next
  case (Cons s ss)
  obtain out st' where sc: "Scan s st c = (out, st')" by (cases "Scan s st c")
  with Cons.prems(1) obtain sr where out: "out = Inr sr"
    by (cases out) auto
  from Cons.prems(1) sc out have nb: "Verdict sr \<noteq> VerdictBlock"
    by (auto split: if_splits)
  let ?c = "if Verdict sr = VerdictModify then Content sr else c"
  from Cons.prems(1) sc out nb obtain srs' where
    rec: "stages_run ss st' ?c = Some (srs', st1, c1)" and srs: "srs = sr # srs'"
    by (auto split: option.splits)
  let ?r2 = "result\<lparr>ScanResults := ScanResults result @ [sr],
                      AllThreats := AllThreats result @ Threats sr\<rparr>"
  let ?r3 = "if Verdict sr = VerdictModify then ?r2\<lparr>FinalVerdict := VerdictModify\<rparr> else ?r2"
  have fv: "FinalVerdict ?r3 \<noteq> VerdictBlock"
    using Cons.prems(2) by simp
  from Cons.IH[OF rec fv] obtain v where v: "v \<noteq> VerdictBlock"
    and eq: "process_loop (ss @ rest) st' ?c ?r3 =
       process_loop rest st1 c1
         (?r3\<lparr>FinalVerdict := v, ScanResults := ScanResults ?r3 @ srs',
               AllThreats := AllThreats ?r3 @ concat (map Threats srs')\<rparr>)"
    by blast
  have step: "process_loop ((s # ss) @ rest) st c result = process_loop (ss @ rest) st' ?c ?r3"
    using sc out nb Cons.prems(2) by (cases "Verdict sr") (simp_all add: Let_def)
  show ?case
    using v eq step srs by (intro exI[of _ v]) (auto simp: Let_def)
qed

lemma stages_run_length:
  "stages_run ss st c = Some (srs, st1, c1) \<Longrightarrow> length srs = length ss"
  by (induction ss arbitrary: st c srs)
     (auto split: prod.splits sum.splits if_splits option.splits)

text \<open>
  C1. If some stage of a pipeline returns the verdict block (the stages before it having
  run, each on the content threaded to it, without an error and without a block), then
  Process returns no error, finalVerdict = block, finalContent = the blocking stage's
  result content, allThreats = the threats of the stages up to and including the
  blocking one, concatenated in stage order, and stageResults = the results of exactly
  those stages, so its length is the index of the blocking stage plus one. No later
  stage is executed: the state returned is the one the blocking stage left, whatever
  the later stages are.
\<close>

theorem Process_block_short_circuits:
  assumes "scanners p = pre @ b # post"
    and "stages_run pre st content = Some (srs, st1, c1)"
    and "Scan b st1 c1 = (Inr sr, st2)"
    and "Verdict sr = VerdictBlock"
  shows "Process p st content =
           ((\<lparr>FinalVerdict = VerdictBlock, FinalContent = Content sr,
              AllThreats = concat (map Threats (srs @ [sr])),
              ScanResults = srs @ [sr]\<rparr>, None), st2)
         \<and> length (srs @ [sr]) = length pre + 1"
proof -
  let ?r0 = "\<lparr>FinalVerdict = VerdictPass, FinalContent = [], AllThreats = [], ScanResults = []\<rparr>"
  have "FinalVerdict ?r0 \<noteq> VerdictBlock" by simp
  from process_loop_stages_run[OF assms(2) this, of "b # post"]
  obtain v where
    "process_loop (pre @ b # post) st content ?r0 =
       process_loop (b # post) st1 c1
         (?r0\<lparr>FinalVerdict := v, ScanResults := ScanResults ?r0 @ srs,
               AllThreats := AllThreats ?r0 @ concat (map Threats srs)\<rparr>)"
    by blast
  then have "Process p st content =
      ((\<lparr>FinalVerdict = VerdictBlock, FinalContent = Content sr,
         AllThreats = concat (map Threats (srs @ [sr])), ScanResults = srs @ [sr]\<rparr>, None), st2)"
    using assms(1,3,4) by (simp add: Process_def Let_def)
  moreover have "length (srs @ [sr]) = length pre + 1"
    using stages_run_length[OF assms(2)] by simp
  ultimately show ?thesis by simp
qed

text \<open>
  The theorem on the pipeline of the repository's test of the short circuit, with a
  modifying stage in front: the tracking scanner behind the blocker does not run (the
  state stays \<open>False\<close>).
\<close>

theorem Process_block_short_circuits_witness:
  "Process
     \<lparr>scanners =
        [stubScanner ''a'' \<lparr>Verdict = VerdictModify, Content = ''cleaned'',
                             Threats = [''threat-1''], ScannerName = []\<rparr> None,
         stubScanner ''blocker'' \<lparr>Verdict = VerdictBlock, Content = ''blocked'',
                                   Threats = [''bad stuff''], ScannerName = []\<rparr> None,
         trackingScanner]\<rparr>
     False ''input'' =
     ((\<lparr>FinalVerdict = VerdictBlock, FinalContent = ''blocked'',
        AllThreats = [''threat-1'', ''bad stuff''],
        ScanResults =
          [\<lparr>Verdict = VerdictModify, Content = ''cleaned'', Threats = [''threat-1''],
            ScannerName = []\<rparr>,
           \<lparr>Verdict = VerdictBlock, Content = ''blocked'', Threats = [''bad stuff''],
            ScannerName = []\<rparr>]\<rparr>, None), False)"
  using Process_block_short_circuits
    [of "\<lparr>scanners =
        [stubScanner ''a'' \<lparr>Verdict = VerdictModify, Content = ''cleaned'',
                             Threats = [''threat-1''], ScannerName = []\<rparr> None,
         stubScanner ''blocker'' \<lparr>Verdict = VerdictBlock, Content = ''blocked'',
                                   Threats = [''bad stuff''], ScannerName = []\<rparr> None,
         trackingScanner]\<rparr>"
        "[stubScanner ''a'' \<lparr>Verdict = VerdictModify, Content = ''cleaned'',
                             Threats = [''threat-1''], ScannerName = []\<rparr> None]"
        "stubScanner ''blocker'' \<lparr>Verdict = VerdictBlock, Content = ''blocked'',
                                   Threats = [''bad stuff''], ScannerName = []\<rparr> None"
        "[trackingScanner]" False "''input''"
        "[\<lparr>Verdict = VerdictModify, Content = ''cleaned'', Threats = [''threat-1''],
            ScannerName = []\<rparr>]"
        False "''cleaned''"
        "\<lparr>Verdict = VerdictBlock, Content = ''blocked'', Threats = [''bad stuff''],
            ScannerName = []\<rparr>" False]
  by (simp add: stubScanner_def)

section \<open>Properties of the configuration\<close>

text \<open>
  C4. Merge(g, nil) = g. For an override o, each pointer field of Merge(g, o) is o's
  value when o has the field (non-nil) and g's value when it is absent, and the
  customInjectionPatterns of Merge(g, o) is o's list when that list is non-empty and
  g's list when it is empty: a replacement, never a concatenation.
\<close>

theorem Merge_law:
  "Merge g None = g
   \<and> MaxResponseChars (Merge g (Some ov)) =
       override_or_inherit (MaxResponseChars ov) (MaxResponseChars g)
   \<and> EnablePromptInjectionDetection (Merge g (Some ov)) =
       override_or_inherit (EnablePromptInjectionDetection ov) (EnablePromptInjectionDetection g)
   \<and> EnableInvisibleTextRemoval (Merge g (Some ov)) =
       override_or_inherit (EnableInvisibleTextRemoval ov) (EnableInvisibleTextRemoval g)
   \<and> EnableURLValidation (Merge g (Some ov)) =
       override_or_inherit (EnableURLValidation ov) (EnableURLValidation g)
   \<and> EnableBoundaryInjection (Merge g (Some ov)) =
       override_or_inherit (EnableBoundaryInjection ov) (EnableBoundaryInjection g)
   \<and> EnableSystemOverrideDetection (Merge g (Some ov)) =
       override_or_inherit (EnableSystemOverrideDetection ov) (EnableSystemOverrideDetection g)
   \<and> DisableBuiltInPatterns (Merge g (Some ov)) =
       override_or_inherit (DisableBuiltInPatterns ov) (DisableBuiltInPatterns g)
   \<and> CustomInjectionPatterns (Merge g (Some ov)) =
       (if CustomInjectionPatterns ov \<noteq> [] then CustomInjectionPatterns ov
        else CustomInjectionPatterns g)"
  by (auto simp: Merge_def Let_def override_or_inherit_def split: option.splits)

section \<open>Properties of the scanners\<close>

subsection \<open>The length scanner\<close>

text \<open>
  C5, as amended. A length scanner with a limit maxChars that is not negative passes a
  content of at most maxChars code points unchanged, and otherwise returns modify with
  the first maxChars code points of the content, a newline and the marker
  \<open>[truncated]\<close>, and the one threat "response exceeded character limit". With a
  negative limit the scan panics on every content: the slice expression is out of
  range. (\<open>BuildPipeline\<close> constructs the scanner for a positive limit only.)
\<close>

theorem LengthScanner_Scan_cases:
  "LengthScanner_Scan s content =
     (if MaxChars s < 0 then Inl (Panic ''runtime error: slice bounds out of range'')
      else if int (length (runes content)) \<le> MaxChars s then
        Inr \<lparr>Verdict = VerdictPass, Content = content, Threats = [], ScannerName = ''length''\<rparr>
      else
        Inr \<lparr>Verdict = VerdictModify,
             Content = string_of_runes (take (nat (MaxChars s)) (runes content))
                       @ [CHR 0x0A] @ ''[truncated]'',
             Threats = [''response exceeded character limit''],
             ScannerName = ''length''\<rparr>)"
  by (simp add: LengthScanner_Scan_def slice_to_def)

text \<open>
  C5 as stated fails for the scanner \<open>NewLengthScanner(-1)\<close>: on the content
  \<open>a\<close>, of one code point, the scan returns neither pass nor modify.
\<close>

theorem LengthScanner_Scan_negative_limit:
  "LengthScanner_Scan (NewLengthScanner (- 1)) ''a'' =
     Inl (Panic ''runtime error: slice bounds out of range'')"
  by (simp add: LengthScanner_Scan_def NewLengthScanner_def slice_to_def utf8_eval)

subsection \<open>The unicode scanner\<close>

lemma strip_runes_filter:
  "strip_runes lib rs =
     (filter (\<lambda>r. \<not> shouldRemove lib r) rs, length (filter (shouldRemove lib) rs))"
  by (induction rs) auto

lemma no_removed_iff: "length (filter P rs) = 0 \<longleftrightarrow> \<not> list_ex P rs"
  by (induction rs) (auto simp: list_ex_iff)

lemma filter_none_removed: "\<not> list_ex P rs \<Longrightarrow> filter (\<lambda>r. \<not> P r) rs = rs"
  by (induction rs) (auto simp: list_ex_iff)

text \<open>
  C6, as amended. The scan never fails. Its content is the encoding of the code points
  of the NFKC normalization of the input without those that \<open>shouldRemove\<close> names:
  the code points in the categories Cf, Co and Cc other than space, tab, carriage return
  and line feed. The verdict is modify if and only if a code point was removed or the
  normalized text, decoded and encoded again, differs from the input; otherwise it is
  pass and the content is the input. The threat "invisible/control characters removed"
  is there exactly when a code point was removed. When the normalized text is
  well-formed UTF-8 (so for every well-formed input), the verdict is modify if and only
  if a code point was removed or the normalization changed the input.
\<close>

theorem UnicodeScanner_Scan_cases:
  "UnicodeScanner_Scan lib content =
     Inr \<lparr>Verdict = (if list_ex (shouldRemove lib) (runes (NFKC lib content))
                         \<or> string_of_runes (runes (NFKC lib content)) \<noteq> content
                      then VerdictModify else VerdictPass),
          Content = string_of_runes (filter (\<lambda>r. \<not> shouldRemove lib r) (runes (NFKC lib content))),
          Threats = (if list_ex (shouldRemove lib) (runes (NFKC lib content))
                     then [''invisible/control characters removed''] else []),
          ScannerName = ''unicode''\<rparr>
   \<and> (if list_ex (shouldRemove lib) (runes (NFKC lib content))
          \<or> string_of_runes (runes (NFKC lib content)) \<noteq> content
       then True
       else string_of_runes (filter (\<lambda>r. \<not> shouldRemove lib r) (runes (NFKC lib content)))
            = content)
   \<and> (shouldRemove lib r \<longleftrightarrow> r \<notin> {0x20, 0x09, 0x0D, 0x0A} \<and> unicode_In lib r)
   \<and> (well_formed_utf8 (NFKC lib content) \<longrightarrow>
        (list_ex (shouldRemove lib) (runes (NFKC lib content))
           \<or> string_of_runes (runes (NFKC lib content)) \<noteq> content)
        = (list_ex (shouldRemove lib) (runes (NFKC lib content)) \<or> NFKC lib content \<noteq> content))"
proof -
  let ?rs = "runes (NFKC lib content)"
  have scan: "UnicodeScanner_Scan lib content =
     Inr \<lparr>Verdict = (if list_ex (shouldRemove lib) ?rs \<or> string_of_runes ?rs \<noteq> content
                      then VerdictModify else VerdictPass),
          Content = string_of_runes (filter (\<lambda>r. \<not> shouldRemove lib r) ?rs),
          Threats = (if list_ex (shouldRemove lib) ?rs
                     then [''invisible/control characters removed''] else []),
          ScannerName = ''unicode''\<rparr>"
  proof (cases "list_ex (shouldRemove lib) ?rs")
    case True
    then have "length (filter (shouldRemove lib) ?rs) \<noteq> 0"
      using no_removed_iff[of "shouldRemove lib" ?rs] by simp
    with True show ?thesis
      by (simp add: UnicodeScanner_Scan_def Let_def strip_runes_filter)
  next
    case False
    then have z: "length (filter (shouldRemove lib) ?rs) = 0"
      using no_removed_iff[of "shouldRemove lib" ?rs] by simp
    from False have k: "filter (\<lambda>r. \<not> shouldRemove lib r) ?rs = ?rs"
      by (rule filter_none_removed)
    from False z k show ?thesis
      by (simp add: UnicodeScanner_Scan_def Let_def strip_runes_filter)
  qed
  have same: "if list_ex (shouldRemove lib) ?rs \<or> string_of_runes ?rs \<noteq> content then True
       else string_of_runes (filter (\<lambda>r. \<not> shouldRemove lib r) ?rs) = content"
    using filter_none_removed[of "shouldRemove lib" ?rs] by auto
  have rem: "shouldRemove lib r \<longleftrightarrow> r \<notin> {0x20, 0x09, 0x0D, 0x0A} \<and> unicode_In lib r"
    by (auto simp: shouldRemove_def)
  have wf: "well_formed_utf8 (NFKC lib content) \<longrightarrow>
        (list_ex (shouldRemove lib) ?rs \<or> string_of_runes ?rs \<noteq> content)
        = (list_ex (shouldRemove lib) ?rs \<or> NFKC lib content \<noteq> content)"
    by (simp add: well_formed_utf8_def)
  from scan same rem wf show ?thesis by blast
qed

text \<open>
  The theorem on the text of the repository's tests, \<open>hello\<close>, U+200B, \<open>world\<close>,
  which is well-formed: the zero-width space is removed.
\<close>

theorem UnicodeScanner_Scan_cases_witness:
  "well_formed_utf8 (NFKC reference_lib zwsp_text)
   \<and> UnicodeScanner_Scan reference_lib zwsp_text =
      Inr \<lparr>Verdict = VerdictModify, Content = ''helloworld'',
           Threats = [''invisible/control characters removed''], ScannerName = ''unicode''\<rparr>"
proof -
  have wf: "well_formed_utf8 (NFKC reference_lib zwsp_text)"
    by (simp add: well_formed_utf8_def reference_lib_def zwsp_text_def utf8_eval)
  have rm: "list_ex (shouldRemove reference_lib) (runes (NFKC reference_lib zwsp_text))"
    by (simp add: reference_lib_def zwsp_text_def shouldRemove_def unicode_Cf_Co_Cc_def
        in_class_def utf8_eval)
  have cl: "string_of_runes (filter (\<lambda>r. \<not> shouldRemove reference_lib r)
              (runes (NFKC reference_lib zwsp_text))) = ''helloworld''"
    by (simp add: reference_lib_def zwsp_text_def shouldRemove_def unicode_Cf_Co_Cc_def
        in_class_def utf8_eval)
  from UnicodeScanner_Scan_cases[of reference_lib zwsp_text] wf rm cl show ?thesis by simp
qed

text \<open>
  C6 as stated fails on the one byte 0xFF, which is not UTF-8: the normalizer returns
  it as it is and no code point is removed (the byte decodes to U+FFFD, of category
  So), yet the verdict is modify, with the three bytes of U+FFFD for content and no
  threat.
\<close>

theorem UnicodeScanner_ill_formed_counterexample:
  "UnicodeScanner_Scan reference_lib [CHR 0xFF] =
     Inr \<lparr>Verdict = VerdictModify, Content = [CHR 0xEF, CHR 0xBF, CHR 0xBD], Threats = [],
          ScannerName = ''unicode''\<rparr>
   \<and> NFKC reference_lib [CHR 0xFF] = [CHR 0xFF]
   \<and> \<not> list_ex (shouldRemove reference_lib) (runes (NFKC reference_lib [CHR 0xFF]))"
  by (simp add: UnicodeScanner_Scan_def reference_lib_def shouldRemove_def unicode_Cf_Co_Cc_def
      in_class_def utf8_eval)


subsection \<open>The injection scanner\<close>

lemma compile_sources_Inr:
  "compile_sources lib ps = Inr res \<Longrightarrow>
   map Inr res = map (\<lambda>p. Compile lib (with_flag_i p)) ps \<and> map expr res = map with_flag_i ps"
proof (induction ps arbitrary: res)
  case Nil
  then show ?case by simp
next
  case (Cons p ps)
  from Cons.prems obtain re where re: "Compile lib (with_flag_i p) = Inr re"
    by (cases "Compile lib (with_flag_i p)") (simp_all add: Let_def with_flag_i_def)
  with Cons.prems obtain res' where res': "compile_sources lib ps = Inr res'" and r: "res = re # res'"
    by (cases "compile_sources lib ps") (simp_all add: Let_def with_flag_i_def)
  from re have "expr re = with_flag_i p"
    by (auto simp: Compile_def split: sum.splits)
  with Cons.IH[OF res'] re r show ?case by simp
qed

text \<open>
  C2, as amended. When the construction of the injection scanner succeeds, the compiled
  list is the built-in patterns (unless disableBuiltIn is set) followed by the custom
  patterns, each compiled from its source with the flag \<open>(?i)\<close> in front: the custom
  patterns come after the built-in ones, not before, and are in the list for every
  value of disableBuiltIn.
\<close>

theorem NewInjectionScanner_sources_order:
  assumes "NewInjectionScanner lib disableBuiltIn customPatterns = Inr s"
  shows "map expr (patterns s) =
           map with_flag_i ((if disableBuiltIn then [] else builtInInjectionPatterns) @ customPatterns)
         \<and> map Inr (patterns s) =
           map (\<lambda>p. Compile lib (with_flag_i p))
             ((if disableBuiltIn then [] else builtInInjectionPatterns) @ customPatterns)"
proof -
  let ?src = "(if disableBuiltIn then [] else builtInInjectionPatterns) @ customPatterns"
  from assms obtain res where res: "compile_sources lib ?src = Inr res" and s: "s = \<lparr>patterns = res\<rparr>"
    by (cases "compile_sources lib ?src") (auto simp: NewInjectionScanner_def Let_def split: if_splits)
  from compile_sources_Inr[OF res] s show ?thesis by simp
qed

lemma InjectionScanner_eta: "\<lparr>patterns = patterns s\<rparr> = s"
  by (cases s) simp

lemma compile_builtIn:
  "compile_sources reference_lib builtInInjectionPatterns = Inr (patterns builtIn_scanner)"
  by (simp add: builtInInjectionPatterns_def builtIn_trees_def builtIn_scanner_def
      Compile_def reference_parse_def HasPrefix_def lib_eval)

lemma compile_builtIn_banana:
  "compile_sources reference_lib (builtInInjectionPatterns @ [''banana'']) =
     Inr (patterns builtIn_scanner @ [banana])"
  by (simp add: builtInInjectionPatterns_def builtIn_trees_def builtIn_scanner_def banana_def
      Compile_def reference_parse_def HasPrefix_def lib_eval)

lemma new_builtIn: "NewInjectionScanner reference_lib False [] = Inr builtIn_scanner"
  by (simp add: NewInjectionScanner_def compile_builtIn InjectionScanner_eta)

text \<open>
  The theorem for the built-in patterns with the custom pattern \<open>banana\<close>, as in the
  repository's test \<open>TestInjectionScanner_CustomPlusBuiltIn\<close>.
\<close>

theorem NewInjectionScanner_sources_order_witness:
  "NewInjectionScanner reference_lib False [''banana''] =
     Inr \<lparr>patterns = patterns builtIn_scanner @ [banana]\<rparr>
   \<and> map expr (patterns builtIn_scanner @ [banana]) =
     map with_flag_i (builtInInjectionPatterns @ [''banana''])"
proof -
  have h: "NewInjectionScanner reference_lib False [''banana''] =
     Inr \<lparr>patterns = patterns builtIn_scanner @ [banana]\<rparr>"
    by (simp add: NewInjectionScanner_def compile_builtIn_banana)
  from NewInjectionScanner_sources_order[OF h] h show ?thesis by simp
qed

text \<open>
  C2 as stated fails there: the sources of the compiled list are the sixteen built-in
  patterns and then \<open>banana\<close>, not \<open>banana\<close> and then the built-in patterns.
\<close>

theorem NewInjectionScanner_custom_first_counterexample:
  "map_sum id (\<lambda>s. map expr (patterns s)) (NewInjectionScanner reference_lib False [''banana'']) =
     Inr (map (\<lambda>p. ''(?i)'' @ p) builtInInjectionPatterns @ [''(?i)banana''])
   \<and> map_sum id (\<lambda>s. map expr (patterns s)) (NewInjectionScanner reference_lib False [''banana'']) \<noteq>
     Inr (''(?i)banana'' # map (\<lambda>p. ''(?i)'' @ p) builtInInjectionPatterns)"
proof -
  have h: "NewInjectionScanner reference_lib False [''banana''] =
     Inr \<lparr>patterns = patterns builtIn_scanner @ [banana]\<rparr>"
    by (simp add: NewInjectionScanner_def compile_builtIn_banana)
  have e: "map expr (patterns builtIn_scanner @ [banana]) =
     map (\<lambda>p. ''(?i)'' @ p) builtInInjectionPatterns @ [''(?i)banana'']"
    by (simp add: builtIn_scanner_def banana_def builtInInjectionPatterns_def builtIn_trees_def)
  have d: "map (\<lambda>p. ''(?i)'' @ p) builtInInjectionPatterns @ [''(?i)banana''] \<noteq>
     ''(?i)banana'' # map (\<lambda>p. ''(?i)'' @ p) builtInInjectionPatterns"
    by (simp add: builtInInjectionPatterns_def raw_def)
  from h e d show ?thesis by simp
qed


subsection \<open>The URL scanner\<close>

text \<open>
  C7, as amended. The URL scanner returns block exactly when the dangerous-scheme
  expression matches somewhere in the content or one of the http(s) URLs that the
  extractor finds in the content matches the exfiltration expression (a query-string key
  out of secret, token, key, password, api_key, credential, auth, session_id,
  private_key). The blocking result has the content unchanged and carries one threat for
  the dangerous-scheme expression if it matches, however often it matches (the threat
  quotes the leftmost match), followed by one threat for each extracted URL with such a
  key, however many keys the URL holds, in the order of the URLs. So the number of
  threats is the number of offending URLs, plus one if a dangerous scheme occurs; it is
  not the number of matches. Otherwise the result is pass with the content unchanged and
  no threat. The scanner never returns an error.
\<close>

theorem URLScanner_Scan_cases:
  "URLScanner_Scan lib content =
     (let hits = filter (MatchString exfilPatterns) (FindAllString urlExtractor content) in
      if MatchString dangerousSchemes content \<or> 0 < length hits then
        Inr \<lparr>Verdict = VerdictBlock, Content = content,
             Threats =
               (if MatchString dangerousSchemes content
                then [''dangerous URI scheme detected: ''
                      @ Quote lib (TrimSpace lib (FindString dangerousSchemes content))]
                else [])
               @ map (\<lambda>u. ''possible data exfiltration URL: '' @ Quote lib u) hits,
             ScannerName = ''url''\<rparr>
      else
        Inr \<lparr>Verdict = VerdictPass, Content = content, Threats = [], ScannerName = ''url''\<rparr>)
   \<and> (case URLScanner_Scan lib content of
         Inl e \<Rightarrow> False
       | Inr sr \<Rightarrow>
           length (Threats sr) =
             (if MatchString dangerousSchemes content then 1 else 0)
             + length (filter (MatchString exfilPatterns) (FindAllString urlExtractor content)))"
  using FindString_nonempty_iff[OF dangerousSchemes_not_nullable, of content]
  by (auto simp: URLScanner_Scan_def Let_def)

text \<open>
  C7 as first stated asks for one threat per match. The content
  \<open>javascript:a javascript:b\<close> holds two matches of the dangerous-scheme expression, and
  the scanner reports one threat, for the leftmost of them. The content
  \<open>https://e.com/?token=1&key=2\<close> is one extracted URL in which the exfiltration
  expression matches twice, and the scanner reports one threat, for the URL.
\<close>

theorem URLScanner_threat_per_match_counterexample:
  "length (FindAllString dangerousSchemes ''javascript:a javascript:b'') = 2
   \<and> URLScanner_Scan reference_lib ''javascript:a javascript:b'' =
       Inr \<lparr>Verdict = VerdictBlock, Content = ''javascript:a javascript:b'',
            Threats = [''dangerous URI scheme detected: '' @ [CHR 0x22] @ ''javascript:'' @ [CHR 0x22]],
            ScannerName = ''url''\<rparr>
   \<and> FindAllString urlExtractor ''https://e.com/?token=1&key=2'' = [''https://e.com/?token=1&key=2'']
   \<and> length (FindAllString exfilPatterns ''https://e.com/?token=1&key=2'') = 2
   \<and> URLScanner_Scan reference_lib ''https://e.com/?token=1&key=2'' =
       Inr \<lparr>Verdict = VerdictBlock, Content = ''https://e.com/?token=1&key=2'',
            Threats = [''possible data exfiltration URL: '' @ [CHR 0x22]
                       @ ''https://e.com/?token=1&key=2'' @ [CHR 0x22]],
            ScannerName = ''url''\<rparr>"
proof -
  have a: "length (FindAllString dangerousSchemes ''javascript:a javascript:b'') = 2"
    by (simp add: dangerousSchemes_def rx_eval)
  have b: "URLScanner_Scan reference_lib ''javascript:a javascript:b'' =
       Inr \<lparr>Verdict = VerdictBlock, Content = ''javascript:a javascript:b'',
            Threats = [''dangerous URI scheme detected: '' @ [CHR 0x22] @ ''javascript:'' @ [CHR 0x22]],
            ScannerName = ''url''\<rparr>"
    by (simp add: URLScanner_Scan_def dangerousSchemes_def urlExtractor_def exfilPatterns_def
        rx_eval lib_eval)
  have c: "FindAllString urlExtractor ''https://e.com/?token=1&key=2'' = [''https://e.com/?token=1&key=2'']"
    by (simp add: urlExtractor_def rx_eval)
  have d: "length (FindAllString exfilPatterns ''https://e.com/?token=1&key=2'') = 2"
    by (simp add: exfilPatterns_def rx_eval)
  have e: "URLScanner_Scan reference_lib ''https://e.com/?token=1&key=2'' =
       Inr \<lparr>Verdict = VerdictBlock, Content = ''https://e.com/?token=1&key=2'',
            Threats = [''possible data exfiltration URL: '' @ [CHR 0x22]
                       @ ''https://e.com/?token=1&key=2'' @ [CHR 0x22]],
            ScannerName = ''url''\<rparr>"
    by (simp add: URLScanner_Scan_def dangerousSchemes_def urlExtractor_def exfilPatterns_def
        rx_eval lib_eval)
  from a b c d e show ?thesis by simp
qed

subsection \<open>The three detectors\<close>




lemma as_Scanner_Scan: "Scan (as_Scanner name f) st c = (f c, st)"
  by (simp add: as_Scanner_def)

lemma BuildPipeline_scanners:
  assumes "BuildPipeline lib cfg source = Inr p"
  shows "\<exists>inj. (if deref (EnablePromptInjectionDetection cfg)
               then \<exists>s. NewInjectionScanner lib (deref (DisableBuiltInPatterns cfg))
                            (CustomInjectionPatterns cfg) = Inr s
                        \<and> inj = [InjectionScanner_as_Scanner lib s]
               else inj = [])
         \<and> scanners p =
            (if deref (EnableInvisibleTextRemoval cfg) then [UnicodeScanner lib] else [])
            @ (case MaxResponseChars cfg of
                 None \<Rightarrow> []
               | Some n \<Rightarrow> if n > 0 then [LengthScanner_as_Scanner (NewLengthScanner n)] else [])
            @ inj
            @ (if deref (EnableSystemOverrideDetection cfg) then [OverrideScanner lib] else [])
            @ (if deref (EnableURLValidation cfg) then [URLScanner lib] else [])
            @ (if deref (EnableBoundaryInjection cfg)
               then [BoundaryScanner_as_Scanner lib (NewBoundaryScanner source)] else [])"
proof (cases "deref (EnablePromptInjectionDetection cfg)")
  case False
  with assms show ?thesis
    by (auto simp: BuildPipeline_def Let_def NewPipeline_def split: option.splits)
next
  case True
  show ?thesis
  proof (cases "NewInjectionScanner lib (deref (DisableBuiltInPatterns cfg)) (CustomInjectionPatterns cfg)")
    case (Inl e)
    with True assms show ?thesis
      by (cases e) (simp_all add: BuildPipeline_def Let_def)
  next
    case (Inr s)
    with True assms show ?thesis
      by (auto simp: BuildPipeline_def Let_def NewPipeline_def split: option.splits)
  qed
qed




section \<open>Clean content through a built pipeline\<close>

lemma scan_patterns_pass:
  "\<forall>re \<in> set res. \<not> MatchString re content \<Longrightarrow>
   scan_patterns lib name msg res content =
     Inr \<lparr>Verdict = VerdictPass, Content = content, Threats = [], ScannerName = name\<rparr>"
  by (induction res) (simp_all add: not_MatchString_FindString)

lemma process_loop_all_pass:
  assumes "\<forall>sc \<in> set ss. \<exists>sr. Scan sc st c = (Inr sr, st) \<and> Verdict sr = VerdictPass \<and> Threats sr = []"
  shows "\<exists>r. process_loop ss st c result = ((r, None), st) \<and> FinalContent r = c
             \<and> FinalVerdict r = FinalVerdict result \<and> AllThreats r = AllThreats result"
  using assms
proof (induction ss arbitrary: result)
  case Nil
  then show ?case by simp
next
  case (Cons sc ss)
  from Cons.prems obtain sr where sr: "Scan sc st c = (Inr sr, st)"
    "Verdict sr = VerdictPass" "Threats sr = []"
    by (meson list.set_intros(1))
  let ?r2 = "result\<lparr>ScanResults := ScanResults result @ [sr],
                      AllThreats := AllThreats result @ Threats sr\<rparr>"
  from Cons.prems have "\<forall>sc \<in> set ss. \<exists>sr. Scan sc st c = (Inr sr, st)
      \<and> Verdict sr = VerdictPass \<and> Threats sr = []"
    by simp
  from Cons.IH[OF this, of ?r2] obtain r where
    "process_loop ss st c ?r2 = ((r, None), st)" "FinalContent r = c"
    "FinalVerdict r = FinalVerdict ?r2" "AllThreats r = AllThreats ?r2" by blast
  with sr show ?case by (simp add: Let_def)
qed

text \<open>
  C3, as amended. Let a pipeline be built by \<open>BuildPipeline\<close> with boundary injection
  disabled. A content that matches none of the injection patterns of the configuration,
  no override pattern and no URL pattern, whose code-point count is within the
  configured limit, and that, when invisible-text removal is enabled, is well-formed
  UTF-8 in NFKC form without a code point that the unicode scanner removes, is returned
  as finalContent with finalVerdict = pass, no threat and no error.
\<close>

theorem Process_clean_content:
  assumes b: "BuildPipeline lib cfg source = Inr p"
    and nb: "\<not> deref (EnableBoundaryInjection cfg)"
    and uni: "deref (EnableInvisibleTextRemoval cfg) \<longrightarrow>
                NFKC lib content = content \<and> well_formed_utf8 content
                \<and> \<not> list_ex (shouldRemove lib) (runes content)"
    and len: "case MaxResponseChars cfg of
                None \<Rightarrow> True | Some n \<Rightarrow> n \<le> 0 \<or> int (length (runes content)) \<le> n"
    and inj: "\<forall>s. NewInjectionScanner lib (deref (DisableBuiltInPatterns cfg))
                     (CustomInjectionPatterns cfg) = Inr s
                \<longrightarrow> (\<forall>re \<in> set (patterns s). \<not> MatchString re content)"
    and ovr: "\<forall>re \<in> set overridePatterns. \<not> MatchString re content"
    and dng: "\<not> MatchString dangerousSchemes content"
    and exf: "\<forall>u \<in> set (FindAllString urlExtractor content). \<not> MatchString exfilPatterns u"
  shows "\<exists>r. Process p st content = ((r, None), st) \<and> FinalVerdict r = VerdictPass
             \<and> FinalContent r = content \<and> AllThreats r = []"
proof -
  from BuildPipeline_scanners[OF b] obtain inj_part where
    ip: "if deref (EnablePromptInjectionDetection cfg)
         then \<exists>s. NewInjectionScanner lib (deref (DisableBuiltInPatterns cfg))
                          (CustomInjectionPatterns cfg) = Inr s
                  \<and> inj_part = [InjectionScanner_as_Scanner lib s]
         else inj_part = []"
    and sc: "scanners p =
            (if deref (EnableInvisibleTextRemoval cfg) then [UnicodeScanner lib] else [])
            @ (case MaxResponseChars cfg of
                 None \<Rightarrow> []
               | Some n \<Rightarrow> if n > 0 then [LengthScanner_as_Scanner (NewLengthScanner n)] else [])
            @ inj_part
            @ (if deref (EnableSystemOverrideDetection cfg) then [OverrideScanner lib] else [])
            @ (if deref (EnableURLValidation cfg) then [URLScanner lib] else [])"
    using nb by auto
  have u: "Scan (UnicodeScanner lib) st content =
             (Inr \<lparr>Verdict = VerdictPass, Content = content, Threats = [], ScannerName = ''unicode''\<rparr>, st)"
    if "deref (EnableInvisibleTextRemoval cfg)"
  proof -
    from that uni have n: "NFKC lib content = content" and w: "string_of_runes (runes content) = content"
      and r: "\<not> list_ex (shouldRemove lib) (runes content)"
      by (simp_all add: well_formed_utf8_def)
    from r have "length (filter (shouldRemove lib) (runes content)) = 0"
      using no_removed_iff[of "shouldRemove lib" "runes content"] by simp
    moreover from r have "filter (\<lambda>r. \<not> shouldRemove lib r) (runes content) = runes content"
      by (rule filter_none_removed)
    ultimately show ?thesis using n w
      by (simp add: UnicodeScanner_def as_Scanner_Scan UnicodeScanner_Scan_def Let_def
          strip_runes_filter)
  qed
  have l: "Scan (LengthScanner_as_Scanner (NewLengthScanner n)) st content =
             (Inr \<lparr>Verdict = VerdictPass, Content = content, Threats = [], ScannerName = ''length''\<rparr>, st)"
    if "MaxResponseChars cfg = Some n" "n > 0" for n
    using that len
    by (simp add: LengthScanner_as_Scanner_def as_Scanner_Scan LengthScanner_Scan_def
        NewLengthScanner_def)
  have i: "Scan (InjectionScanner_as_Scanner lib s) st content =
             (Inr \<lparr>Verdict = VerdictPass, Content = content, Threats = [], ScannerName = ''injection''\<rparr>, st)"
    if "NewInjectionScanner lib (deref (DisableBuiltInPatterns cfg)) (CustomInjectionPatterns cfg) = Inr s"
    for s
    using that inj
    by (simp add: InjectionScanner_as_Scanner_def as_Scanner_Scan InjectionScanner_Scan_def
        scan_patterns_pass)
  have o: "Scan (OverrideScanner lib) st content =
             (Inr \<lparr>Verdict = VerdictPass, Content = content, Threats = [], ScannerName = ''override''\<rparr>, st)"
    using ovr
    by (simp add: OverrideScanner_def as_Scanner_Scan OverrideScanner_Scan_def scan_patterns_pass)
  have "filter (MatchString exfilPatterns) (FindAllString urlExtractor content) = []"
    using exf by (simp add: filter_empty_conv)
  with dng have v: "Scan (URLScanner lib) st content =
             (Inr \<lparr>Verdict = VerdictPass, Content = content, Threats = [], ScannerName = ''url''\<rparr>, st)"
    by (simp add: URLScanner_def as_Scanner_Scan URLScanner_Scan_def Let_def
        not_MatchString_FindString)
  have "\<forall>sc \<in> set (scanners p). \<exists>sr. Scan sc st content = (Inr sr, st)
          \<and> Verdict sr = VerdictPass \<and> Threats sr = []"
  proof
    fix x assume "x \<in> set (scanners p)"
    with sc ip consider "deref (EnableInvisibleTextRemoval cfg)" "x = UnicodeScanner lib"
      | n where "MaxResponseChars cfg = Some n" "n > 0" "x = LengthScanner_as_Scanner (NewLengthScanner n)"
      | s where "NewInjectionScanner lib (deref (DisableBuiltInPatterns cfg)) (CustomInjectionPatterns cfg) = Inr s"
          "x = InjectionScanner_as_Scanner lib s"
      | "x = OverrideScanner lib" | "x = URLScanner lib"
      by (auto split: if_splits option.splits)
    then show "\<exists>sr. Scan x st content = (Inr sr, st) \<and> Verdict sr = VerdictPass \<and> Threats sr = []"
    proof cases
      case 1 with u show ?thesis by simp
    next
      case 2 with l show ?thesis by simp
    next
      case 3 with i show ?thesis by simp
    next
      case 4 with o show ?thesis by simp
    next
      case 5 with v show ?thesis by simp
    qed
  qed
  from process_loop_all_pass[OF this, of
      "\<lparr>FinalVerdict = VerdictPass, FinalContent = [], AllThreats = [], ScanResults = []\<rparr>"]
  show ?thesis by (auto simp: Process_def)
qed

lemma build_protected:
  "BuildPipeline reference_lib protected_config ''srv'' = Inr protected_pipeline"
  by (simp add: BuildPipeline_def protected_config_def protected_pipeline_def deref_def
      new_builtIn)

lemma ok_builtIn: "list_all (\<lambda>re. \<not> MatchString re ''ok'') (patterns builtIn_scanner)"
  by (simp add: builtIn_scanner_def builtInInjectionPatterns_def builtIn_trees_def rx_eval)

lemma ok_override: "list_all (\<lambda>re. \<not> MatchString re ''ok'') overridePatterns"
  by (simp add: overridePatterns_def rx_eval)

lemma ok_url: "\<not> MatchString dangerousSchemes ''ok''"
  "list_all (\<lambda>u. \<not> MatchString exfilPatterns u) (FindAllString urlExtractor ''ok'')"
  by (simp_all add: dangerousSchemes_def urlExtractor_def exfilPatterns_def rx_eval)

text \<open>
  The theorem on the pipeline with every stage but the boundary, for the content \<open>ok\<close>.
\<close>

theorem Process_clean_content_witness:
  "BuildPipeline reference_lib protected_config ''srv'' = Inr protected_pipeline
   \<and> FinalVerdict (fst (fst (Process protected_pipeline () ''ok''))) = VerdictPass
   \<and> FinalContent (fst (fst (Process protected_pipeline () ''ok''))) = ''ok''"
proof -
  have nb: "\<not> deref (EnableBoundaryInjection protected_config)"
    by (simp add: protected_config_def deref_def)
  have uni: "deref (EnableInvisibleTextRemoval protected_config) \<longrightarrow>
                NFKC reference_lib ''ok'' = ''ok'' \<and> well_formed_utf8 ''ok''
                \<and> \<not> list_ex (shouldRemove reference_lib) (runes ''ok'')"
    by (simp add: reference_lib_def well_formed_utf8_def shouldRemove_def unicode_Cf_Co_Cc_def
        in_class_def utf8_eval)
  have len: "case MaxResponseChars protected_config of
                None \<Rightarrow> True | Some n \<Rightarrow> n \<le> 0 \<or> int (length (runes ''ok'')) \<le> n"
    by (simp add: protected_config_def utf8_eval)
  have inj: "\<forall>s. NewInjectionScanner reference_lib (deref (DisableBuiltInPatterns protected_config))
                     (CustomInjectionPatterns protected_config) = Inr s
                \<longrightarrow> (\<forall>re \<in> set (patterns s). \<not> MatchString re ''ok'')"
    using ok_builtIn by (simp add: protected_config_def deref_def new_builtIn list_all_iff)
  have ovr: "\<forall>re \<in> set overridePatterns. \<not> MatchString re ''ok''"
    using ok_override by (simp add: list_all_iff)
  have exf: "\<forall>u \<in> set (FindAllString urlExtractor ''ok''). \<not> MatchString exfilPatterns u"
    using ok_url(2) by (simp add: list_all_iff)
  from Process_clean_content[OF build_protected nb uni len inj ovr ok_url(1) exf, of "()"]
  show ?thesis using build_protected by auto
qed

lemma zw_builtIn: "list_all (\<lambda>re. \<not> MatchString re zwsp_text) (patterns builtIn_scanner)"
  by (simp add: zwsp_text_def builtIn_scanner_def builtInInjectionPatterns_def builtIn_trees_def rx_eval)

lemma zw_override: "list_all (\<lambda>re. \<not> MatchString re zwsp_text) overridePatterns"
  by (simp add: zwsp_text_def overridePatterns_def rx_eval)

lemma zw_url: "\<not> MatchString dangerousSchemes zwsp_text"
  "list_all (\<lambda>u. \<not> MatchString exfilPatterns u) (FindAllString urlExtractor zwsp_text)"
  by (simp_all add: zwsp_text_def dangerousSchemes_def urlExtractor_def exfilPatterns_def rx_eval)

text \<open>
  C3 as stated fails on the same pipeline for the text \<open>hello\<close>, U+200B, \<open>world\<close>:
  it matches no injection, override or URL pattern and has 11 code points, within the
  limit of 16000, yet the unicode stage removes the zero-width space, so that the
  verdict is modify and the content \<open>helloworld\<close>.
\<close>

theorem Process_invisible_text_counterexample:
  "BuildPipeline reference_lib protected_config ''srv'' = Inr protected_pipeline
   \<and> int (length (runes zwsp_text)) \<le> 16000
   \<and> list_all (\<lambda>re. \<not> MatchString re zwsp_text) (patterns builtIn_scanner)
   \<and> list_all (\<lambda>re. \<not> MatchString re zwsp_text) overridePatterns
   \<and> \<not> MatchString dangerousSchemes zwsp_text
   \<and> list_all (\<lambda>u. \<not> MatchString exfilPatterns u) (FindAllString urlExtractor zwsp_text)
   \<and> FinalVerdict (fst (fst (Process protected_pipeline () zwsp_text))) = VerdictModify
   \<and> FinalContent (fst (fst (Process protected_pipeline () zwsp_text))) = ''helloworld''"
proof -
  have len: "int (length (runes zwsp_text)) \<le> 16000"
    by (simp add: zwsp_text_def utf8_eval)
  have u: "UnicodeScanner_Scan reference_lib zwsp_text =
      Inr \<lparr>Verdict = VerdictModify, Content = ''helloworld'',
           Threats = [''invisible/control characters removed''], ScannerName = ''unicode''\<rparr>"
    by (simp add: UnicodeScanner_Scan_def zwsp_text_def reference_lib_def shouldRemove_def
        unicode_Cf_Co_Cc_def in_class_def utf8_eval)
  have l: "LengthScanner_Scan (NewLengthScanner 16000) ''helloworld'' =
      Inr \<lparr>Verdict = VerdictPass, Content = ''helloworld'', Threats = [], ScannerName = ''length''\<rparr>"
    by (simp add: LengthScanner_Scan_def NewLengthScanner_def utf8_eval)
  have i: "InjectionScanner_Scan reference_lib builtIn_scanner ''helloworld'' =
      Inr \<lparr>Verdict = VerdictPass, Content = ''helloworld'', Threats = [], ScannerName = ''injection''\<rparr>"
    unfolding InjectionScanner_Scan_def
    by (rule scan_patterns_pass)
       (simp add: builtIn_scanner_def builtInInjectionPatterns_def builtIn_trees_def rx_eval)
  have o: "OverrideScanner_Scan reference_lib ''helloworld'' =
      Inr \<lparr>Verdict = VerdictPass, Content = ''helloworld'', Threats = [], ScannerName = ''override''\<rparr>"
    unfolding OverrideScanner_Scan_def
    by (rule scan_patterns_pass) (simp add: overridePatterns_def rx_eval)
  have v: "URLScanner_Scan reference_lib ''helloworld'' =
      Inr \<lparr>Verdict = VerdictPass, Content = ''helloworld'', Threats = [], ScannerName = ''url''\<rparr>"
    by (simp add: URLScanner_Scan_def dangerousSchemes_def urlExtractor_def exfilPatterns_def rx_eval)
  have "fst (Process protected_pipeline () zwsp_text) =
      (\<lparr>FinalVerdict = VerdictModify, FinalContent = ''helloworld'',
        AllThreats = [''invisible/control characters removed''],
        ScanResults =
          [\<lparr>Verdict = VerdictModify, Content = ''helloworld'',
            Threats = [''invisible/control characters removed''], ScannerName = ''unicode''\<rparr>,
           \<lparr>Verdict = VerdictPass, Content = ''helloworld'', Threats = [], ScannerName = ''length''\<rparr>,
           \<lparr>Verdict = VerdictPass, Content = ''helloworld'', Threats = [], ScannerName = ''injection''\<rparr>,
           \<lparr>Verdict = VerdictPass, Content = ''helloworld'', Threats = [], ScannerName = ''override''\<rparr>,
           \<lparr>Verdict = VerdictPass, Content = ''helloworld'', Threats = [], ScannerName = ''url''\<rparr>]\<rparr>,
       None)"
    by (simp add: Process_def protected_pipeline_def NewPipeline_def UnicodeScanner_def
        LengthScanner_as_Scanner_def InjectionScanner_as_Scanner_def OverrideScanner_def
        URLScanner_def as_Scanner_def u l i o v)
  with build_protected len zw_builtIn zw_override zw_url show ?thesis by simp
qed

section \<open>Properties of the proxy handler\<close>

lemma sanitize_items_append:
  "sanitize_items pl st [] pre = (Inr (Inr pre'), st1) \<Longrightarrow>
   sanitize_items pl st seen (pre @ rest) = sanitize_items pl st1 (seen @ pre') rest"
proof -
  have gen: "\<And>st seen out. sanitize_items pl st seen pre = (Inr (Inr out), st1) \<Longrightarrow>
      \<exists>pre'. out = seen @ pre' \<and>
        (\<forall>seen2 rest. sanitize_items pl st seen2 (pre @ rest) = sanitize_items pl st1 (seen2 @ pre') rest)"
  proof (induction pre)
    case Nil
    then show ?case by simp
  next
    case (Cons c pre)
    show ?case
    proof (cases c)
      case (OtherContent x)
      with Cons.prems have "sanitize_items pl st (seen @ [c]) pre = (Inr (Inr out), st1)" by simp
      from Cons.IH[OF this] obtain pre' where "out = (seen @ [c]) @ pre'"
        and "\<forall>seen2 rest. sanitize_items pl st seen2 (pre @ rest) = sanitize_items pl st1 (seen2 @ pre') rest"
        by blast
      with OtherContent show ?thesis by (intro exI[of _ "c # pre'"]) simp
    next
      case (TextContent t m a)
      obtain pr eo st' where P: "Process pl st t = ((pr, eo), st')"
        by (metis prod.exhaust)
      show ?thesis
      proof (cases eo)
        case (Some e)
        with Cons.prems TextContent P show ?thesis by simp
      next
        case None
        show ?thesis
        proof (cases "FinalVerdict pr")
          case VerdictBlock
          with Cons.prems TextContent P None show ?thesis by (simp add: Let_def)
        next
          case VerdictModify
          let ?c' = "TextContent (FinalContent pr) None a"
          from Cons.prems TextContent P None VerdictModify
          have "sanitize_items pl st' (seen @ [?c']) pre = (Inr (Inr out), st1)" by simp
          from Cons.IH[OF this] obtain pre' where "out = (seen @ [?c']) @ pre'"
            and "\<forall>seen2 rest. sanitize_items pl st' seen2 (pre @ rest) = sanitize_items pl st1 (seen2 @ pre') rest"
            by blast
          with TextContent P None VerdictModify show ?thesis
            by (intro exI[of _ "?c' # pre'"]) simp
        next
          case VerdictPass
          from Cons.prems TextContent P None VerdictPass
          have "sanitize_items pl st' (seen @ [c]) pre = (Inr (Inr out), st1)" by simp
          from Cons.IH[OF this] obtain pre' where "out = (seen @ [c]) @ pre'"
            and "\<forall>seen2 rest. sanitize_items pl st' seen2 (pre @ rest) = sanitize_items pl st1 (seen2 @ pre') rest"
            by blast
          with TextContent P None VerdictPass show ?thesis
            by (intro exI[of _ "c # pre'"]) simp
        qed
      qed
    qed
  qed
  assume "sanitize_items pl st [] pre = (Inr (Inr pre'), st1)"
  from gen[OF this] show ?thesis by simp
qed

text \<open>
  C8. Let the downstream call return a result, and let the pipeline return the verdict
  block for the text of one of its text items, the items before it having been
  processed without an error and without a block. Then the handler returns, with no
  error of the call, a new result whose content is a single text item and whose error
  flag is set; the text is the pipeline's threats joined with "; ", or "blocked by
  sanitization" when the pipeline reports none. The items behind the blocking one are
  not processed: the result and the state are those that the blocking item leaves,
  whatever follows it.
\<close>

theorem sanitizeResult_block:
  assumes "Session serverName = Some session"
    and "CallTool session downstreamName args st0 = (Inr result, st)"
    and "ctr_Content result = pre @ TextContent t m a # post"
    and "sanitize_items pipeline st [] pre = (Inr (Inr pre'), st1)"
    and "Process pipeline st1 t = ((pr, None), st2)"
    and "FinalVerdict pr = VerdictBlock"
  shows "proxyHandler Session CallTool serverName downstreamName namespacedName pipeline st0 args =
           (Inr \<lparr>ctr_Meta = None,
                 ctr_Content = [TextContent (if AllThreats pr = [] then ''blocked by sanitization''
                                             else Join (AllThreats pr) ''; '') None None],
                 ctr_StructuredContent = None,
                 IsError = True\<rparr>, st2)
         \<and> sanitizeResult result pipeline st =
           (Inr \<lparr>ctr_Meta = None,
                 ctr_Content = [TextContent (if AllThreats pr = [] then ''blocked by sanitization''
                                             else Join (AllThreats pr) ''; '') None None],
                 ctr_StructuredContent = None,
                 IsError = True\<rparr>, st2)"
proof -
  have "sanitize_items pipeline st [] (ctr_Content result) =
          sanitize_items pipeline st1 ([] @ pre') (TextContent t m a # post)"
    unfolding assms(3) by (rule sanitize_items_append[OF assms(4)])
  with assms(5,6) have "sanitizeResult result pipeline st =
           (Inr \<lparr>ctr_Meta = None,
                 ctr_Content = [TextContent (if AllThreats pr = [] then ''blocked by sanitization''
                                             else Join (AllThreats pr) ''; '') None None],
                 ctr_StructuredContent = None,
                 IsError = True\<rparr>, st2)"
    by (simp add: sanitizeResult_def Let_def)
  with assms(1,2) show ?thesis by (simp add: proxyHandler_def)
qed

lemma banana_apples:
  "Process banana_pipeline () ''I like apples'' =
     ((\<lparr>FinalVerdict = VerdictPass, FinalContent = ''I like apples'', AllThreats = [],
        ScanResults = [\<lparr>Verdict = VerdictPass, Content = ''I like apples'', Threats = [],
                        ScannerName = ''injection''\<rparr>]\<rparr>, None), ())"
  by (simp add: Process_def banana_pipeline_def NewPipeline_def InjectionScanner_as_Scanner_def
      as_Scanner_def InjectionScanner_Scan_def banana_def rx_eval)

lemma banana_blocked:
  "Process banana_pipeline () ''I like banana'' =
     ((\<lparr>FinalVerdict = VerdictBlock, FinalContent = ''I like banana'',
        AllThreats = [''prompt injection detected: matched pattern '' @ [CHR 0x22] @ ''(?i)banana''
                      @ [CHR 0x22]],
        ScanResults = [\<lparr>Verdict = VerdictBlock, Content = ''I like banana'',
                        Threats = [''prompt injection detected: matched pattern '' @ [CHR 0x22]
                                   @ ''(?i)banana'' @ [CHR 0x22]],
                        ScannerName = ''injection''\<rparr>]\<rparr>, None), ())"
  by (simp add: Process_def banana_pipeline_def NewPipeline_def InjectionScanner_as_Scanner_def
      as_Scanner_def InjectionScanner_Scan_def banana_def rx_eval lib_eval)

text \<open>
  The theorem for a result of four items, the third of which matches the custom
  pattern \<open>banana\<close>.
\<close>

theorem sanitizeResult_block_witness:
  "proxyHandler (\<lambda>name. Some ()) (\<lambda>session name args st. (Inr banana_result, st))
       ''srv'' ''echo'' ''srv__echo'' banana_pipeline () () =
     (Inr \<lparr>ctr_Meta = None,
           ctr_Content = [TextContent (''prompt injection detected: matched pattern '' @ [CHR 0x22]
                                       @ ''(?i)banana'' @ [CHR 0x22]) None None],
           ctr_StructuredContent = None,
           IsError = True\<rparr>, ())"
proof -
  have c: "ctr_Content banana_result =
      [TextContent ''I like apples'' None None, OtherContent ''image'']
      @ TextContent ''I like banana'' None None # [TextContent ''later'' None None]"
    by (simp add: banana_result_def)
  have p: "sanitize_items banana_pipeline () [] [TextContent ''I like apples'' None None, OtherContent ''image''] =
      (Inr (Inr [TextContent ''I like apples'' None None, OtherContent ''image'']), ())"
    by (simp add: banana_apples)
  have b: "FinalVerdict \<lparr>FinalVerdict = VerdictBlock, FinalContent = ''I like banana'',
        AllThreats = [''prompt injection detected: matched pattern '' @ [CHR 0x22] @ ''(?i)banana''
                      @ [CHR 0x22]],
        ScanResults = [\<lparr>Verdict = VerdictBlock, Content = ''I like banana'',
                        Threats = [''prompt injection detected: matched pattern '' @ [CHR 0x22]
                                   @ ''(?i)banana'' @ [CHR 0x22]],
                        ScannerName = ''injection''\<rparr>]\<rparr> = VerdictBlock"
    by simp
  have s: "(\<lambda>name. Some ()) ''srv'' = Some ()"
    and t: "(\<lambda>session name args st. (Inr banana_result, st)) () ''echo'' () () = (Inr banana_result, ())"
    by simp_all
  from sanitizeResult_block[of "\<lambda>name. Some ()" "''srv''" "()"
      "\<lambda>session name args st. (Inr banana_result, st)" "''echo''" "()" "()" banana_result "()",
      OF s t c p banana_blocked b, of "''srv__echo''"]
  show ?thesis by simp
qed

section \<open>Properties of loading a configuration\<close>

lemma validate_downstreams_None_iff:
  "validate_downstreams i names dss = None \<longleftrightarrow>
     \<not> list_ex downstream_invalid dss \<and> distinct (map ds_Name dss)
     \<and> set (map ds_Name dss) \<inter> names = {}"
proof (induction dss arbitrary: i names)
  case Nil
  then show ?case by simp
next
  case (Cons ds dss)
  show ?case
  proof (cases "downstream_invalid ds \<or> ds_Name ds \<in> names")
    case True
    then have "validate_downstreams i names (ds # dss) \<noteq> None"
      using validName_empty by (auto simp: downstream_invalid_def)
    with True show ?thesis by auto
  next
    case False
    then have "validate_downstreams i names (ds # dss) =
        validate_downstreams (i + 1) (insert (ds_Name ds) names) dss"
      using validName_empty by (auto simp: downstream_invalid_def)
    with False Cons.IH[of "i + 1" "insert (ds_Name ds) names"] show ?thesis by auto
  qed
qed

lemma first_invalid_None_iff:
  "first_invalid lib i ps = None \<longleftrightarrow> \<not> list_ex (pattern_invalid lib) ps"
  by (induction ps arbitrary: i) (auto simp: pattern_invalid_def split: sum.splits)

lemma validate_downstream_patterns_None_iff:
  "validate_downstream_patterns lib di dss = None \<longleftrightarrow>
     \<not> list_ex (downstream_patterns_invalid lib) dss"
proof (induction dss arbitrary: di)
  case Nil
  then show ?case by simp
next
  case (Cons ds dss)
  show ?case
  proof (cases "ds_Sanitization ds")
    case None
    with Cons.IH[of "di + 1"] show ?thesis by (simp add: downstream_patterns_invalid_def)
  next
    case (Some sa)
    show ?thesis
    proof (cases "first_invalid lib 0 (CustomInjectionPatterns sa)")
      case None
      with Some Cons.IH[of "di + 1"] first_invalid_None_iff[of lib 0 "CustomInjectionPatterns sa"]
      show ?thesis by (simp add: downstream_patterns_invalid_def)
    next
      case (Some a)
      with \<open>ds_Sanitization ds = Some sa\<close> first_invalid_None_iff[of lib 0 "CustomInjectionPatterns sa"]
      show ?thesis by (cases a) (simp add: downstream_patterns_invalid_def)
    qed
  qed
qed

lemma validate_None_iff:
  "validate lib cfg = None \<longleftrightarrow>
     (Transport (Upstream cfg) = TransportStdio \<or> Transport (Upstream cfg) = TransportHTTP)
     \<and> Downstream cfg \<noteq> []
     \<and> \<not> list_ex downstream_invalid (Downstream cfg)
     \<and> distinct (map ds_Name (Downstream cfg))
     \<and> \<not> list_ex (pattern_invalid lib) (CustomInjectionPatterns (Sanitization cfg))
     \<and> \<not> list_ex (downstream_patterns_invalid lib) (Downstream cfg)"
proof -
  have a: "(validate_downstreams 0 {} (Downstream cfg) = None) =
      (\<not> list_ex downstream_invalid (Downstream cfg) \<and> distinct (map ds_Name (Downstream cfg)))"
    using validate_downstreams_None_iff[of 0 "{}" "Downstream cfg"] by simp
  note b = first_invalid_None_iff[of lib 0 "CustomInjectionPatterns (Sanitization cfg)"]
  note c = validate_downstream_patterns_None_iff[of lib 0 "Downstream cfg"]
  show ?thesis
  proof (cases "validate_downstreams 0 {} (Downstream cfg)")
    case (Some e)
    with a show ?thesis by (auto simp: validate_def)
  next
    case None
    show ?thesis
    proof (cases "first_invalid lib 0 (CustomInjectionPatterns (Sanitization cfg))")
      case (Some x)
      with None a b show ?thesis by (cases x) (auto simp: validate_def)
    next
      case N2: None
      with None a b c show ?thesis by (auto simp: validate_def)
    qed
  qed
qed

lemma applyDefaults_fields:
  "Transport (Upstream (applyDefaults cfg)) =
     (if Transport (Upstream cfg) = [] then TransportStdio else Transport (Upstream cfg))"
  "Downstream (applyDefaults cfg) = Downstream cfg"
  "CustomInjectionPatterns (Sanitization (applyDefaults cfg)) = CustomInjectionPatterns (Sanitization cfg)"
  by (simp_all add: applyDefaults_def Let_def)

text \<open>
  C9, as amended. \<open>Load\<close> returns an error if and only if the file cannot be read,
  its JSON cannot be decoded, or the decoded configuration has an upstream transport
  that is not empty and neither "stdio" nor "http" (an empty one stands for "stdio"),
  an empty downstream list, a downstream server whose name holds "__" or does not match
  \<open>^[a-zA-Z0-9][a-zA-Z0-9_-]*$\<close>, whose transport is neither "stdio" nor "http", that
  has no command under stdio or no URL under http, a custom injection pattern, global
  or of a downstream server, that is not a valid regular expression, or two downstream
  servers of the same name.
\<close>

theorem Load_error_iff:
  "isl (Load lib ReadFile Unmarshal path) \<longleftrightarrow>
     (case ReadFile path of
        Inl err \<Rightarrow> True
      | Inr data \<Rightarrow>
          (case Unmarshal data of
             Inl err \<Rightarrow> True
           | Inr cfg \<Rightarrow>
               (Transport (Upstream cfg) \<noteq> [] \<and> Transport (Upstream cfg) \<noteq> TransportStdio
                  \<and> Transport (Upstream cfg) \<noteq> TransportHTTP)
               \<or> Downstream cfg = []
               \<or> list_ex downstream_invalid (Downstream cfg)
               \<or> list_ex (pattern_invalid lib) (CustomInjectionPatterns (Sanitization cfg))
               \<or> list_ex (downstream_patterns_invalid lib) (Downstream cfg)
               \<or> \<not> distinct (map ds_Name (Downstream cfg))))"
proof (cases "ReadFile path")
  case (Inl err)
  then show ?thesis by (simp add: Load_def)
next
  case (Inr data)
  show ?thesis
  proof (cases "Unmarshal data")
    case (Inl err)
    with Inr show ?thesis by (simp add: Load_def)
  next
    case R: (Inr cfg)
    have "isl (Load lib ReadFile Unmarshal path) \<longleftrightarrow> validate lib (applyDefaults cfg) \<noteq> None"
      using Inr R by (cases "validate lib (applyDefaults cfg)") (simp_all add: Load_def Let_def)
    also have "\<dots> \<longleftrightarrow>
               (Transport (Upstream cfg) \<noteq> [] \<and> Transport (Upstream cfg) \<noteq> TransportStdio
                  \<and> Transport (Upstream cfg) \<noteq> TransportHTTP)
               \<or> Downstream cfg = []
               \<or> list_ex downstream_invalid (Downstream cfg)
               \<or> list_ex (pattern_invalid lib) (CustomInjectionPatterns (Sanitization cfg))
               \<or> list_ex (downstream_patterns_invalid lib) (Downstream cfg)
               \<or> \<not> distinct (map ds_Name (Downstream cfg))"
      unfolding validate_None_iff applyDefaults_fields
      by (auto simp: TransportStdio_def TransportHTTP_def)
    finally show ?thesis using Inr R by simp
  qed
qed

text \<open>
  C9 as stated fails for a document with the upstream transport left empty, as in the
  repository's test \<open>TestLoad_DefaultsApplied\<close>: the transport of the decoded
  configuration is neither "stdio" nor "http", and \<open>Load\<close> returns the configuration
  with its defaults, no error.
\<close>

theorem Load_empty_upstream_transport_counterexample:
  "Transport (Upstream defaults_config) \<noteq> ''stdio''
   \<and> Transport (Upstream defaults_config) \<noteq> ''http''
   \<and> Load reference_lib (\<lambda>path. Inr ''{...}'') (\<lambda>data. Inr defaults_config) ''config.json'' =
       Inr (applyDefaults defaults_config)"
  by (simp add: Load_def validate_def applyDefaults_def defaults_config_def TransportStdio_def
      TransportHTTP_def HasPrefix_def validName_def rx_eval)


end
